theory Spec2Isabelle
  imports Complex_Main
begin

section \<open>The bias-channel layer of src/caffe/layers/bias\_channel\_layer.cpp\<close>

text \<open>
  The layer is a C++ class template over \<open>Dtype\<close> (float or double) whose methods receive
  vectors of pointers to blobs. The embedding keeps that shape:
  \<^item> a blob is a record of its four dimensions and its two buffers (data and diff);
  \<^item> memory is a store from addresses to blobs, and \<open>bottom\<close>, \<open>top_v\<close> (the vector top) are lists of
    addresses, so that two entries naming the same blob share it as two equal pointers do;
  \<^item> \<open>CHECK\<close> and \<open>LOG(FATAL)\<close> abort the process: a method returns \<open>Inl (e, st)\<close>
    with the state \<open>st\<close> reached when it aborted, or \<open>Inr st\<close> when it returned;
  \<^item> a \<open>Dtype\<close> value is the real number it denotes, and the addition of the instance
    (\<open>+=\<close> on float or on double, which rounds) is a parameter \<open>add\<close> of every
    function that adds: what is proved for every \<open>add\<close> holds for both instances.
    \<open>float_add\<close> below is the addition of the float instance. Infinities and NaN are
    outside the model;
  \<^item> the C++ \<open>int\<close> is 32 bits wide; the only place where its width is visible here is
    the conversion of a label to \<open>int\<close>, which is undefined when the truncated value
    has no 32-bit representation, and that is a branch of the model. Blob dimensions are
    natural numbers and their products are taken not to overflow.
\<close>

subsection \<open>Data\<close>

text \<open>
  Modelled from the spec: the configuration message \<open>BiasChannelParameter\<close> and its
  enumeration \<open>LabelType\<close> (caffe.proto is not among the sources): bg\_bias, fg\_bias,
  label\_type in {IMAGE, PIXEL} and the repeated integer ignore\_label.
\<close>

type_synonym Dtype = real

type_synonym addr = nat

datatype LabelType = IMAGE | PIXEL

record BiasChannelParameter =
  bg_bias :: Dtype
  fg_bias :: Dtype
  label_type :: LabelType
  ignore_label :: "int list"

record Blob =
  num :: nat
  channels :: nat
  height :: nat
  width :: nat
  cpu_data :: "Dtype list"
  cpu_diff :: "Dtype list"

text \<open>
  The members of the class. Isabelle does not allow a name to end in an underscore, so the
  member \<open>bg_bias_\<close> is \<open>bg_bias_m\<close>, and so on; \<open>bias_channel_param\<close> is
  \<open>layer_param_.bias_channel_param()\<close>.
\<close>

record BiasChannelLayer =
  bias_channel_param :: BiasChannelParameter
  bg_bias_m :: Dtype
  fg_bias_m :: Dtype
  ignore_label_m :: "int set"
  num_m :: nat
  channels_m :: nat
  height_m :: nat
  width_m :: nat
  max_labels_m :: nat

type_synonym store = "addr \<Rightarrow> Blob"

datatype error =
    CHECK_failed string
  | LOG_FATAL string
  | Unexpected_label int
  | Undefined_conversion

type_synonym 's result = "(error \<times> 's) + 's"

subsection \<open>What the layer uses of the framework\<close>

text \<open>
  Modelled from the spec: \<open>Blob::count\<close>, \<open>Blob::offset\<close> and \<open>Blob::Reshape\<close>
  (caffe/blob.hpp is not among the sources). A blob of shape (N, C, H, W) holds
  N * C * H * W values and the spec's \<open>x[n, c, h, w]\<close> is the value at the row-major
  position. Reshaping sets the four dimensions and allocates zeroed buffers when the
  present ones are too short.
\<close>

definition Blob_count :: "Blob \<Rightarrow> nat" where
  "Blob_count b = num b * channels b * height b * width b"

definition Blob_offset :: "Blob \<Rightarrow> nat \<Rightarrow> nat \<Rightarrow> nat \<Rightarrow> nat \<Rightarrow> nat" where
  "Blob_offset b n c h w = ((n * channels b + c) * height b + h) * width b + w"

definition Blob_Reshape :: "Blob \<Rightarrow> nat \<Rightarrow> nat \<Rightarrow> nat \<Rightarrow> nat \<Rightarrow> Blob" where
  "Blob_Reshape b n c h w =
     b\<lparr>num := n, channels := c, height := h, width := w,
       cpu_data := (if length (cpu_data b) < n * c * h * w
                    then replicate (n * c * h * w) 0 else cpu_data b),
       cpu_diff := (if length (cpu_diff b) < n * c * h * w
                    then replicate (n * c * h * w) 0 else cpu_diff b)\<rparr>"

text \<open>
  Modelled from the spec: \<open>mutable_cpu_data\<close> and \<open>mutable_cpu_diff\<close> give write access
  to the buffers of the blob at an address; here they apply a change \<open>f\<close> of the buffer.
  Host and device views of a buffer are kept coherent by the framework, so
  \<open>gpu_data\<close> and \<open>gpu_diff\<close> are the same lists.
\<close>

definition mutable_cpu_data :: "addr \<Rightarrow> (Dtype list \<Rightarrow> Dtype list) \<Rightarrow> store \<Rightarrow> store" where
  "mutable_cpu_data a f s = s(a := (s a)\<lparr>cpu_data := f (cpu_data (s a))\<rparr>)"

definition mutable_cpu_diff :: "addr \<Rightarrow> (Dtype list \<Rightarrow> Dtype list) \<Rightarrow> store \<Rightarrow> store" where
  "mutable_cpu_diff a f s = s(a := (s a)\<lparr>cpu_diff := f (cpu_diff (s a))\<rparr>)"

definition gpu_data :: "Blob \<Rightarrow> Dtype list" where
  "gpu_data b = cpu_data b"

definition gpu_diff :: "Blob \<Rightarrow> Dtype list" where
  "gpu_diff b = cpu_diff b"

definition mutable_gpu_data :: "addr \<Rightarrow> (Dtype list \<Rightarrow> Dtype list) \<Rightarrow> store \<Rightarrow> store" where
  "mutable_gpu_data a f s = s(a := (s a)\<lparr>cpu_data := f (gpu_data (s a))\<rparr>)"

definition mutable_gpu_diff :: "addr \<Rightarrow> (Dtype list \<Rightarrow> Dtype list) \<Rightarrow> store \<Rightarrow> store" where
  "mutable_gpu_diff a f s = s(a := (s a)\<lparr>cpu_diff := f (gpu_diff (s a))\<rparr>)"

text \<open>
  Modelled from the spec: the math primitives (caffe/util/math\_functions.hpp is not among
  the sources). \<open>caffe_copy N X Y\<close> overwrites the first \<open>N\<close> values of \<open>Y\<close> with those
  of \<open>X\<close>; \<open>caffe_add_scalar add N alpha off Y\<close> adds \<open>alpha\<close>, with the addition
  of the instance, to the \<open>N\<close> values that start at the pointer \<open>Y + off\<close>. A buffer is a list, so an access beyond its end
  (undefined in C++) does nothing here; the theorems below are stated for buffers that hold
  at least \<open>count\<close> values, where no such access happens.
\<close>

definition caffe_copy :: "nat \<Rightarrow> Dtype list \<Rightarrow> Dtype list \<Rightarrow> Dtype list" where
  "caffe_copy N X Y = take N X @ drop N Y"

definition caffe_add_scalar ::
  "(Dtype \<Rightarrow> Dtype \<Rightarrow> Dtype) \<Rightarrow> nat \<Rightarrow> Dtype \<Rightarrow> nat \<Rightarrow> Dtype list \<Rightarrow> Dtype list" where
  "caffe_add_scalar add N alpha off Y =
     take off Y @ map (\<lambda>y. add y alpha) (take N (drop off Y)) @ drop (off + N) Y"

definition caffe_gpu_add_scalar ::
  "(Dtype \<Rightarrow> Dtype \<Rightarrow> Dtype) \<Rightarrow> nat \<Rightarrow> Dtype \<Rightarrow> nat \<Rightarrow> Dtype list \<Rightarrow> Dtype list" where
  "caffe_gpu_add_scalar add N alpha off Y =
     take off Y @ map (\<lambda>y. add y alpha) (take N (drop off Y)) @ drop (off + N) Y"

text \<open>
  The addition of the float instance: the exact sum rounded to the nearest single-precision
  value, ties to the even significand. In units of the smallest subnormal (2 to the -149)
  the single-precision values are the integers below 2 to the 24 and their doubles, so
  \<open>round_sig24\<close> rounds to an integer below that bound and halves its argument above it.
  A sum beyond the largest finite value (an infinity in the code) is outside the model.
\<close>

definition round_half_even :: "real \<Rightarrow> int" where
  "round_half_even z =
     (let f = \<lfloor>z\<rfloor>
      in if z - of_int f < 1 / 2 then f
         else if 1 / 2 < z - of_int f then f + 1
         else if even f then f else f + 1)"

function round_sig24 :: "real \<Rightarrow> real" where
  "round_sig24 y = (if y < 2 ^ 24 then of_int (round_half_even y) else 2 * round_sig24 (y / 2))"
  by pat_completeness auto
termination
proof (relation "measure (\<lambda>y. nat \<lfloor>y\<rfloor>)")
  show "wf (measure (\<lambda>y. nat \<lfloor>y\<rfloor>))" by simp
next
  fix y :: real
  assume "\<not> y < 2 ^ 24"
  then have "y / 2 + 1 \<le> y" by simp
  then have "\<lfloor>y / 2\<rfloor> + 1 \<le> \<lfloor>y\<rfloor>" by (metis floor_add_int floor_mono of_int_1)
  moreover have "0 \<le> \<lfloor>y / 2\<rfloor>" using \<open>\<not> y < 2 ^ 24\<close> by simp
  ultimately have "nat \<lfloor>y / 2\<rfloor> < nat \<lfloor>y\<rfloor>" by linarith
  then show "(y / 2, y) \<in> measure (\<lambda>y. nat \<lfloor>y\<rfloor>)" by simp
qed

definition float_round :: "real \<Rightarrow> real" where
  "float_round x = sgn x * round_sig24 (\<bar>x\<bar> * 2 ^ 149) / 2 ^ 149"

definition float_add :: "Dtype \<Rightarrow> Dtype \<Rightarrow> Dtype" where
  "float_add x y = float_round (x + y)"

text \<open>
  \<open>static_cast<int>\<close> of a \<open>Dtype\<close>: the fractional part is discarded (truncation toward
  zero); the conversion is undefined when the result is not a 32-bit \<open>int\<close>.
\<close>

definition static_cast_int :: "Dtype \<Rightarrow> int option" where
  "static_cast_int x =
     (let t = (if 0 \<le> x then \<lfloor>x\<rfloor> else \<lceil>x\<rceil>)
      in if - (2 ^ 31) \<le> t \<and> t < 2 ^ 31 then Some t else None)"

text \<open>
  A counting loop \<open>for (i = 0; i < n; ++i) body\<close> is \<open>for_loop [0..<n] body\<close>: the body
  runs on each index in turn and the first abort ends the run.
\<close>

fun for_loop :: "nat list \<Rightarrow> (nat \<Rightarrow> 's \<Rightarrow> 's result) \<Rightarrow> 's \<Rightarrow> 's result" where
  "for_loop [] body s = Inr s"
| "for_loop (i # is) body s =
     (case body i s of Inl e \<Rightarrow> Inl e | Inr s' \<Rightarrow> for_loop is body s')"

subsection \<open>LayerSetUp\<close>

definition LayerSetUp ::
  "BiasChannelLayer \<Rightarrow> addr list \<Rightarrow> addr list \<Rightarrow> BiasChannelLayer result" where
  "LayerSetUp L bottom top_v =
     (let param = bias_channel_param L;
          L1 = L\<lparr>bg_bias_m := bg_bias param, fg_bias_m := fg_bias param\<rparr>
      in if \<not> (bg_bias_m L1 \<ge> 0) then Inl (CHECK_failed ''BG bias needs to be positive'', L1)
         else if \<not> (fg_bias_m L1 \<ge> 0) then Inl (CHECK_failed ''FG bias needs to be positive'', L1)
         else
           let L2 = L1\<lparr>ignore_label_m := insert (- 1) (ignore_label_m L1)\<rparr>
           in Inr (fold (\<lambda>i K. K\<lparr>ignore_label_m := insert (ignore_label param ! i) (ignore_label_m K)\<rparr>)
                     [0..<length (ignore_label param)] L2))"

subsection \<open>Reshape\<close>

text \<open>
  The members are assigned before the checks that follow them, so the state of an abort
  holds them. \<open>LabelType\<close> has the two values of the enumeration, so the
  \<open>default\<close> case of the switch ("Unexpected label type") has no counterpart. After the
  switch the output blob is reshaped; \<open>reshaped\<close> names the state after that call.
\<close>

definition Reshape ::
  "BiasChannelLayer \<Rightarrow> addr list \<Rightarrow> addr list \<Rightarrow> store \<Rightarrow> (BiasChannelLayer \<times> store) result" where
  "Reshape L bottom top_v s =
     (let label_type = label_type (bias_channel_param L);
          L1 = L\<lparr>num_m := num (s (bottom ! 0)), channels_m := channels (s (bottom ! 0)),
                 height_m := height (s (bottom ! 0)), width_m := width (s (bottom ! 0))\<rparr>
      in if num (s (bottom ! 1)) \<noteq> num_m L1
         then Inl (CHECK_failed ''Input channels incompatible in num'', (L1, s))
         else
           let L2 = L1\<lparr>max_labels_m := channels (s (bottom ! 1))\<rparr>;
               reshaped = (L2, s(top_v ! 0 := Blob_Reshape (s (top_v ! 0))
                                   (num_m L2) (channels_m L2) (height_m L2) (width_m L2)))
           in if \<not> (max_labels_m L2 \<ge> 1)
              then Inl (CHECK_failed ''Label blob needs to be non-empty'', (L2, s))
              else (case label_type of
                 IMAGE \<Rightarrow>
                   if height (s (bottom ! 1)) \<noteq> 1 then Inl (CHECK_failed ''Label height'', (L2, s))
                   else if width (s (bottom ! 1)) \<noteq> 1 then Inl (CHECK_failed ''Label width'', (L2, s))
                   else Inr reshaped
               | PIXEL \<Rightarrow>
                   if channels (s (bottom ! 1)) \<noteq> 1 then Inl (CHECK_failed ''Label channels'', (L2, s))
                   else if height (s (bottom ! 1)) \<noteq> height_m L2
                   then Inl (CHECK_failed ''Label height'', (L2, s))
                   else if width (s (bottom ! 1)) \<noteq> width_m L2
                   then Inl (CHECK_failed ''Label width'', (L2, s))
                   else Inr reshaped))"

subsection \<open>Forward\<close>

text \<open>The body of the loop over the label slots \<open>j\<close> of sample \<open>n\<close> (image labels).\<close>

definition image_body ::
  "(Dtype \<Rightarrow> Dtype \<Rightarrow> Dtype) \<Rightarrow> BiasChannelLayer \<Rightarrow> addr list \<Rightarrow> addr list \<Rightarrow> nat \<Rightarrow> nat \<Rightarrow> store \<Rightarrow> store result" where
  "image_body add L bottom top_v n j s =
     (case static_cast_int (cpu_data (s (bottom ! 1)) ! Blob_offset (s (bottom ! 1)) n j 0 0) of
        None \<Rightarrow> Inl (Undefined_conversion, s)
      | Some label \<Rightarrow>
          if label \<in> ignore_label_m L then Inr s
          else if label \<ge> 0 \<and> label < int (channels_m L) then
            let bias = (if label = 0 then bg_bias_m L else fg_bias_m L)
            in Inr (mutable_cpu_data (top_v ! 0)
                     (caffe_add_scalar add (height_m L * width_m L) bias
                        (Blob_offset (s (top_v ! 0)) n (nat label) 0 0)) s)
          else Inl (Unexpected_label label, s))"

text \<open>
  The body of the loop over the positions \<open>j\<close> of sample \<open>n\<close> (pixel labels);
  \<open>label_data\<close> and \<open>top_data\<close> are the offsets of the two pointers taken before the loop.
\<close>

definition pixel_body ::
  "(Dtype \<Rightarrow> Dtype \<Rightarrow> Dtype) \<Rightarrow> BiasChannelLayer \<Rightarrow> addr list \<Rightarrow> addr list \<Rightarrow>
     nat \<Rightarrow> nat \<Rightarrow> nat \<Rightarrow> nat \<Rightarrow> store \<Rightarrow> store result" where
  "pixel_body add L bottom top_v label_data top_data spatial_dim j s =
     (case static_cast_int (cpu_data (s (bottom ! 1)) ! (label_data + j)) of
        None \<Rightarrow> Inl (Undefined_conversion, s)
      | Some label \<Rightarrow>
          if label \<in> ignore_label_m L then Inr s
          else if label = 0 then
            Inr (mutable_cpu_data (top_v ! 0)
                   (\<lambda>D. D[top_data + j := add (D ! (top_data + j)) (bg_bias_m L)]) s)
          else if label > 0 \<and> label < int (channels_m L) then
            let s1 = mutable_cpu_data (top_v ! 0)
                       (\<lambda>D. D[top_data + j := add (D ! (top_data + j)) (bg_bias_m L)]) s
            in Inr (mutable_cpu_data (top_v ! 0)
                     (\<lambda>D. D[top_data + (nat label * spatial_dim + j) :=
                              add (D ! (top_data + (nat label * spatial_dim + j))) (fg_bias_m L)]) s1)
          else Inl (Unexpected_label label, s))"

text \<open>The body of the loop over the samples \<open>n\<close>.\<close>

definition sample_body ::
  "(Dtype \<Rightarrow> Dtype \<Rightarrow> Dtype) \<Rightarrow> BiasChannelLayer \<Rightarrow> addr list \<Rightarrow> addr list \<Rightarrow> nat \<Rightarrow> store \<Rightarrow> store result" where
  "sample_body add L bottom top_v n s =
     (let label_type = label_type (bias_channel_param L)
      in if label_type = IMAGE then
           for_loop [0..<max_labels_m L] (image_body add L bottom top_v n) s
         else if label_type = PIXEL then
           let label_data = Blob_offset (s (bottom ! 1)) n 0 0 0;
               top_data = Blob_offset (s (top_v ! 0)) n 0 0 0;
               spatial_dim = height_m L * width_m L
           in for_loop [0..<spatial_dim]
                (pixel_body add L bottom top_v label_data top_data spatial_dim) s
         else Inr s)"

definition Forward_cpu ::
  "(Dtype \<Rightarrow> Dtype \<Rightarrow> Dtype) \<Rightarrow> BiasChannelLayer \<Rightarrow> addr list \<Rightarrow> addr list \<Rightarrow> store \<Rightarrow> store result" where
  "Forward_cpu add L bottom top_v s =
     (let s1 = mutable_cpu_data (top_v ! 0)
                 (caffe_copy (Blob_count (s (bottom ! 0))) (cpu_data (s (bottom ! 0)))) s
      in for_loop [0..<num_m L] (sample_body add L bottom top_v) s1)"

subsection \<open>Backward\<close>

definition Backward_cpu ::
  "BiasChannelLayer \<Rightarrow> addr list \<Rightarrow> bool list \<Rightarrow> addr list \<Rightarrow> store \<Rightarrow> store result" where
  "Backward_cpu L top_v propagate_down bottom s =
     (if propagate_down ! 1
      then Inl (LOG_FATAL ''Cannot propagate down to label input'', s)
      else if propagate_down ! 0
      then Inr (mutable_cpu_diff (bottom ! 0)
                  (caffe_copy (Blob_count (s (bottom ! 0))) (cpu_diff (s (top_v ! 0)))) s)
      else Inr s)"

subsection \<open>The device path\<close>

definition image_body_gpu ::
  "(Dtype \<Rightarrow> Dtype \<Rightarrow> Dtype) \<Rightarrow> BiasChannelLayer \<Rightarrow> addr list \<Rightarrow> addr list \<Rightarrow> nat \<Rightarrow> nat \<Rightarrow> store \<Rightarrow> store result" where
  "image_body_gpu add L bottom top_v n j s =
     (case static_cast_int (cpu_data (s (bottom ! 1)) ! Blob_offset (s (bottom ! 1)) n j 0 0) of
        None \<Rightarrow> Inl (Undefined_conversion, s)
      | Some label \<Rightarrow>
          if label \<in> ignore_label_m L then Inr s
          else if label \<ge> 0 \<and> label < int (channels_m L) then
            let bias = (if label = 0 then bg_bias_m L else fg_bias_m L)
            in Inr (mutable_gpu_data (top_v ! 0)
                     (caffe_gpu_add_scalar add (height_m L * width_m L) bias
                        (Blob_offset (s (top_v ! 0)) n (nat label) 0 0)) s)
          else Inl (Unexpected_label label, s))"

definition Forward_gpu ::
  "(Dtype \<Rightarrow> Dtype \<Rightarrow> Dtype) \<Rightarrow> BiasChannelLayer \<Rightarrow> addr list \<Rightarrow> addr list \<Rightarrow> store \<Rightarrow> store result" where
  "Forward_gpu add L bottom top_v s =
     (let label_type = label_type (bias_channel_param L)
      in if label_type = PIXEL then Forward_cpu add L bottom top_v s
         else
           let s1 = mutable_gpu_data (top_v ! 0)
                      (caffe_copy (Blob_count (s (bottom ! 0))) (gpu_data (s (bottom ! 0)))) s
           in for_loop [0..<num_m L]
                (\<lambda>n. for_loop [0..<max_labels_m L] (image_body_gpu add L bottom top_v n)) s1)"

definition Backward_gpu ::
  "BiasChannelLayer \<Rightarrow> addr list \<Rightarrow> bool list \<Rightarrow> addr list \<Rightarrow> store \<Rightarrow> store result" where
  "Backward_gpu L top_v propagate_down bottom s =
     (if propagate_down ! 1
      then Inl (LOG_FATAL ''Cannot propagate down to label input'', s)
      else if propagate_down ! 0
      then Inr (mutable_gpu_diff (bottom ! 0)
                  (caffe_copy (Blob_count (s (bottom ! 0))) (gpu_diff (s (top_v ! 0)))) s)
      else Inr s)"

subsection \<open>Notions the statements use\<close>

text \<open>
  The state a method ends in, whether it returned or aborted, and the shape of a blob.
\<close>

definition state_of :: "'s result \<Rightarrow> 's" where
  "state_of r = (case r of Inl (e, st) \<Rightarrow> st | Inr st \<Rightarrow> st)"

definition Blob_shape :: "Blob \<Rightarrow> nat \<times> nat \<times> nat \<times> nat" where
  "Blob_shape b = (num b, channels b, height b, width b)"

text \<open>\<open>set_data t D s\<close> is the store \<open>s\<close> with the data buffer of blob \<open>t\<close> replaced by \<open>D\<close>.\<close>

definition set_data :: "addr \<Rightarrow> Dtype list \<Rightarrow> store \<Rightarrow> store" where
  "set_data t D s = s(t := (s t)\<lparr>cpu_data := D\<rparr>)"

text \<open>
  The integer label at a position of the label blob: \<open>label_at b n c h w\<close> is the spec's
  \<open>label[n, c, h, w]\<close> after conversion; \<open>image_label b n j\<close> is what the image loop
  reads for slot \<open>j\<close> and \<open>pixel_label b n j\<close> what the pixel loop reads for the
  flattened position \<open>j\<close> of sample \<open>n\<close>.
\<close>

definition label_at :: "Blob \<Rightarrow> nat \<Rightarrow> nat \<Rightarrow> nat \<Rightarrow> nat \<Rightarrow> int option" where
  "label_at b n c h w = static_cast_int (cpu_data b ! Blob_offset b n c h w)"

definition image_label :: "Blob \<Rightarrow> nat \<Rightarrow> nat \<Rightarrow> int option" where
  "image_label b n j = static_cast_int (cpu_data b ! Blob_offset b n j 0 0)"

definition pixel_label :: "Blob \<Rightarrow> nat \<Rightarrow> nat \<Rightarrow> int option" where
  "pixel_label b n j = static_cast_int (cpu_data b ! (Blob_offset b n 0 0 0 + j))"

text \<open>
  The spec's ignore set of a configuration (the listed values and the sentinel -1), the
  number \<open>k(n, c)\<close> of label slots of sample \<open>n\<close> that name channel \<open>c\<close> outside the
  ignore set, and the bias of a channel.
\<close>

definition ignore_label_set :: "BiasChannelParameter \<Rightarrow> int set" where
  "ignore_label_set P = insert (- 1) (set (ignore_label P))"



text \<open>
  Mode-independent names for what the two loops of \<open>Forward_cpu\<close> do with a label: the
  entry read at step \<open>j\<close> of sample \<open>n\<close>, the number of steps per sample, the labels the
  range test lets through (\<open>label >= 0 && label < channels_\<close> for image labels,
  \<open>label == 0\<close> or \<open>label > 0 && label < channels_\<close> for pixel labels), and the entries
  that do not abort the run.
\<close>

definition label_entry :: "BiasChannelLayer \<Rightarrow> Blob \<Rightarrow> nat \<Rightarrow> nat \<Rightarrow> int option" where
  "label_entry L b n j =
     (if label_type (bias_channel_param L) = IMAGE then image_label b n j else pixel_label b n j)"

definition entries :: "BiasChannelLayer \<Rightarrow> nat" where
  "entries L =
     (if label_type (bias_channel_param L) = IMAGE then max_labels_m L
      else height_m L * width_m L)"

definition valid_label :: "BiasChannelLayer \<Rightarrow> int \<Rightarrow> bool" where
  "valid_label L label =
     (if label_type (bias_channel_param L) = IMAGE
      then 0 \<le> label \<and> label < int (channels_m L)
      else label = 0 \<or> (0 < label \<and> label < int (channels_m L)))"

definition accepted :: "BiasChannelLayer \<Rightarrow> int option \<Rightarrow> bool" where
  "accepted L lab =
     (case lab of None \<Rightarrow> False
      | Some label \<Rightarrow> label \<in> ignore_label_m L \<or> valid_label L label)"

subsection \<open>Notions the proofs use\<close>

text \<open>
  The output blob has the shape the layer recorded; a label entry lets the image (pixel)
  loop continue; what one step of either loop, and what all steps of a sample, do to the
  value \<open>v\<close> at position \<open>k\<close> of the output buffer, as a function of the labels read;
  and what the pixel loop does to channel \<open>c\<close> of the pixel whose label it read.
\<close>

definition top_shaped :: "BiasChannelLayer \<Rightarrow> Blob \<Rightarrow> bool" where
  "top_shaped L b \<longleftrightarrow>
     channels b = channels_m L \<and> height b = height_m L \<and> width b = width_m L"


definition pixel_label_ok :: "BiasChannelLayer \<Rightarrow> int option \<Rightarrow> bool" where
  "pixel_label_ok L lab =
     (case lab of None \<Rightarrow> False
      | Some label \<Rightarrow> label \<in> ignore_label_m L \<or> label = 0 \<or>
                      (0 < label \<and> label < int (channels_m L)))"


definition pixel_upd ::
  "(Dtype \<Rightarrow> Dtype \<Rightarrow> Dtype) \<Rightarrow> BiasChannelLayer \<Rightarrow> nat \<Rightarrow> nat \<Rightarrow> int option \<Rightarrow> nat \<Rightarrow> Dtype \<Rightarrow> Dtype" where
  "pixel_upd add L n j lab k v =
     (case lab of None \<Rightarrow> v
      | Some label \<Rightarrow>
          if label \<in> ignore_label_m L \<or> \<not> (label = 0 \<or> 0 < label \<and> label < int (channels_m L))
          then v
          else if k = n * channels_m L * (height_m L * width_m L) + j then add v (bg_bias_m L)
          else if 0 < label \<and> k = (n * channels_m L + nat label) * (height_m L * width_m L) + j
          then add v (fg_bias_m L) else v)"


definition pixel_sample_upd ::
  "(Dtype \<Rightarrow> Dtype \<Rightarrow> Dtype) \<Rightarrow> BiasChannelLayer \<Rightarrow> Blob \<Rightarrow> nat \<Rightarrow> nat \<Rightarrow> Dtype \<Rightarrow> Dtype" where
  "pixel_sample_upd add L b n k =
     fold (\<lambda>j. pixel_upd add L n j (pixel_label b n j) k) [0..<height_m L * width_m L]"

definition pixel_apply ::
  "(Dtype \<Rightarrow> Dtype \<Rightarrow> Dtype) \<Rightarrow> BiasChannelLayer \<Rightarrow> nat \<Rightarrow> int option \<Rightarrow> Dtype \<Rightarrow> Dtype" where
  "pixel_apply add L c lab v =
     (case lab of None \<Rightarrow> v
      | Some label \<Rightarrow>
          if label \<in> ignore_label_m L \<or> \<not> (label = 0 \<or> 0 < label \<and> label < int (channels_m L))
          then v
          else if c = 0 then add v (bg_bias_m L)
          else if 0 < label \<and> label = int c then add v (fg_bias_m L) else v)"

subsection \<open>A small network state for concrete runs\<close>

text \<open>
  A configuration with bg\_bias 1, fg\_bias 2 and ignore label 255; a freshly constructed
  layer; an activation blob of shape (1, 3, 1, 2) at address 0, a label blob at address 1
  (three image label slots, or one label per pixel) and an unshaped output blob at address
  2. \<open>ex_ready\<close> is the layer after \<open>LayerSetUp\<close>, \<open>ex_reshaped\<close> the layer and the
  store after \<open>Reshape\<close>; \<open>ex_gradient\<close> is an output blob with a gradient.
  \<open>ex_large_activation\<close> holds 2 to the 25 in channel 2, where single precision has
  spacing 4; \<open>ex_in_place\<close> is the state after a Reshape whose output blob is the
  activation blob itself (\<open>top[0] = bottom[0]\<close>).
\<close>

definition ex_param :: "LabelType \<Rightarrow> BiasChannelParameter" where
  "ex_param ty = \<lparr>bg_bias = 1, fg_bias = 2, label_type = ty, ignore_label = [255]\<rparr>"

definition ex_layer :: "LabelType \<Rightarrow> BiasChannelLayer" where
  "ex_layer ty = \<lparr>bias_channel_param = ex_param ty, bg_bias_m = 0, fg_bias_m = 0,
     ignore_label_m = {}, num_m = 0, channels_m = 0, height_m = 0, width_m = 0,
     max_labels_m = 0\<rparr>"

definition ex_activation :: Blob where
  "ex_activation = \<lparr>num = 1, channels = 3, height = 1, width = 2,
     cpu_data = [10, 20, 30, 40, 50, 60], cpu_diff = [0, 0, 0, 0, 0, 0]\<rparr>"

definition ex_image_labels :: "Dtype list \<Rightarrow> Blob" where
  "ex_image_labels xs = \<lparr>num = 1, channels = 3, height = 1, width = 1,
     cpu_data = xs, cpu_diff = []\<rparr>"

definition ex_pixel_labels :: "Dtype list \<Rightarrow> Blob" where
  "ex_pixel_labels xs = \<lparr>num = 1, channels = 1, height = 1, width = 2,
     cpu_data = xs, cpu_diff = []\<rparr>"

definition ex_large_activation :: Blob where
  "ex_large_activation = \<lparr>num = 1, channels = 3, height = 1, width = 2,
     cpu_data = [10, 20, 30, 40, 33554432, 60], cpu_diff = [0, 0, 0, 0, 0, 0]\<rparr>"

definition ex_top :: Blob where
  "ex_top = \<lparr>num = 0, channels = 0, height = 0, width = 0, cpu_data = [], cpu_diff = []\<rparr>"

definition ex_gradient :: Blob where
  "ex_gradient = \<lparr>num = 1, channels = 3, height = 1, width = 2,
     cpu_data = [11, 20, 30, 40, 52, 60], cpu_diff = [1, 2, 3, 4, 5, 6]\<rparr>"

definition ex_store :: "Blob \<Rightarrow> store" where
  "ex_store labels = (\<lambda>_. ex_top)(0 := ex_activation, 1 := labels)"

definition ex_ready :: "LabelType \<Rightarrow> BiasChannelLayer" where
  "ex_ready ty = state_of (LayerSetUp (ex_layer ty) [0, 1] [2])"

definition ex_reshaped :: "LabelType \<Rightarrow> Blob \<Rightarrow> BiasChannelLayer \<times> store" where
  "ex_reshaped ty labels = state_of (Reshape (ex_ready ty) [0, 1] [2] (ex_store labels))"

definition ex_large_store :: store where
  "ex_large_store = (ex_store (ex_image_labels [2, 2, - 1]))(0 := ex_large_activation)"

definition ex_large_reshaped :: "BiasChannelLayer \<times> store" where
  "ex_large_reshaped = state_of (Reshape (ex_ready IMAGE) [0, 1] [2] ex_large_store)"

definition ex_large_pixel_store :: store where
  "ex_large_pixel_store = (ex_store (ex_pixel_labels [2, 0]))(0 := ex_large_activation)"

definition ex_large_pixel_reshaped :: "BiasChannelLayer \<times> store" where
  "ex_large_pixel_reshaped = state_of (Reshape (ex_ready PIXEL) [0, 1] [2] ex_large_pixel_store)"

definition ex_in_place :: "BiasChannelLayer \<times> store" where
  "ex_in_place =
     state_of (Reshape (ex_ready IMAGE) [0, 1] [0] (ex_store (ex_image_labels [2, 2, - 1])))"

section \<open>Lemmas\<close>

subsection \<open>Positions in a row-major buffer\<close>


lemma mixed_radix_eq:
  fixes q q' r r' M :: nat
  assumes "r < M" "r' < M"
  shows "q * M + r = q' * M + r' \<longleftrightarrow> q = q' \<and> r = r'"
proof
  assume e: "q * M + r = q' * M + r'"
  have "(q * M + r) div M = q" "(q' * M + r') div M = q'" using assms by simp_all
  with e have "q = q'" by simp
  with e show "q = q' \<and> r = r'" by simp
qed simp

lemma plane_in_count:
  fixes n N c C M :: nat
  assumes "n < N" "c < C"
  shows "(n * C + c) * M + M \<le> N * C * M"
proof -
  have "n * C + c + 1 \<le> n * C + C" using assms by simp
  also have "\<dots> = Suc n * C" by simp
  also have "\<dots> \<le> N * C" using assms by (intro mult_le_mono1) simp
  finally have "(n * C + c + 1) * M \<le> N * C * M" by (rule mult_le_mono1)
  then show ?thesis by (simp add: algebra_simps)
qed

lemma spatial_index_bound:
  fixes h H w W :: nat
  assumes "h < H" "w < W"
  shows "h * W + w < H * W"
proof -
  have "h * W + w < h * W + W" using assms by simp
  also have "\<dots> = Suc h * W" by simp
  also have "\<dots> \<le> H * W" using assms by (intro mult_le_mono1) simp
  finally show ?thesis .
qed

lemma Blob_offset_plane:
  "Blob_offset b n c h w = (n * channels b + c) * (height b * width b) + (h * width b + w)"
  by (simp add: Blob_offset_def algebra_simps)

subsection \<open>The math primitives\<close>



lemma length_caffe_copy:
  "N \<le> length X \<Longrightarrow> N \<le> length Y \<Longrightarrow> length (caffe_copy N X Y) = length Y"
  by (simp add: caffe_copy_def)

lemma nth_caffe_copy:
  "k < N \<Longrightarrow> N \<le> length X \<Longrightarrow> caffe_copy N X Y ! k = X ! k"
  by (simp add: caffe_copy_def nth_append)

subsection \<open>The addition of the float instance\<close>

text \<open>
  Integers of magnitude up to 2 to the 24 are single-precision values, so sums that stay
  there are exact; at 2 to the 25 the spacing is 4, and adding 2 returns the first operand.
\<close>

declare round_sig24.simps [simp del]

lemma round_half_even_int: "round_half_even (of_int m) = m"
  by (simp add: round_half_even_def)

lemma round_sig24_scale:
  assumes "2 ^ 24 \<le> y"
  shows "round_sig24 (y * 2 ^ k) = 2 ^ k * round_sig24 y"
proof (induction k)
  case 0
  show ?case by simp
next
  case (Suc k)
  have "(1::real) \<le> 2 ^ Suc k" by (rule one_le_power) simp
  moreover have "0 \<le> y" using assms by simp
  ultimately have "y * 1 \<le> y * 2 ^ Suc k" by (rule mult_left_mono)
  with assms have "\<not> y * 2 ^ Suc k < 2 ^ 24" by linarith
  then have "round_sig24 (y * 2 ^ Suc k) = 2 * round_sig24 (y * 2 ^ Suc k / 2)"
    by (subst round_sig24.simps) simp
  also have "y * 2 ^ Suc k / 2 = y * 2 ^ k" by simp
  finally show ?case using Suc.IH by simp
qed

lemma round_sig24_int:
  assumes "0 \<le> m" "m \<le> 2 ^ 24"
  shows "round_sig24 (of_int m * 2 ^ k) = of_int m * 2 ^ k"
proof (induction k)
  case 0
  show ?case
  proof (cases "m < 2 ^ 24")
    case True
    then have "real_of_int m < 2 ^ 24" by (metis of_int_less_iff of_int_numeral of_int_power)
    then show ?thesis by (subst round_sig24.simps) (simp add: round_half_even_int)
  next
    case False
    with assms have m: "m = 2 ^ 24" by simp
    have "round_sig24 (2 ^ 24) = 2 * round_sig24 (2 ^ 23)"
      by (subst round_sig24.simps) simp
    also have "round_sig24 (2 ^ 23) = 2 ^ 23"
      using round_half_even_int[of "2 ^ 23"] by (subst round_sig24.simps) simp
    finally show ?thesis using m by simp
  qed
next
  case (Suc k)
  show ?case
  proof (cases "real_of_int m * 2 ^ Suc k < 2 ^ 24")
    case True
    have "real_of_int m * 2 ^ Suc k = of_int (m * 2 ^ Suc k)" by simp
    then have "round_half_even (real_of_int m * 2 ^ Suc k) = m * 2 ^ Suc k"
      by (simp only: round_half_even_int)
    with True show ?thesis by (subst round_sig24.simps) simp
  next
    case False
    then have "round_sig24 (real_of_int m * 2 ^ Suc k) =
                 2 * round_sig24 (real_of_int m * 2 ^ Suc k / 2)"
      by (subst round_sig24.simps) simp
    also have "real_of_int m * 2 ^ Suc k / 2 = real_of_int m * 2 ^ k" by simp
    finally show ?thesis using Suc.IH by simp
  qed
qed

lemma float_round_int:
  assumes "\<bar>m\<bar> \<le> 2 ^ 24"
  shows "float_round (of_int m) = of_int m"
proof -
  have "round_sig24 (of_int \<bar>m\<bar> * 2 ^ 149) = of_int \<bar>m\<bar> * 2 ^ 149"
    using assms by (intro round_sig24_int) simp_all
  then have "float_round (of_int m) = sgn (real_of_int m) * of_int \<bar>m\<bar>"
    by (simp add: float_round_def)
  also have "\<dots> = of_int m" by (simp add: sgn_if)
  finally show ?thesis .
qed

lemma float_add_small:
  "float_add 50 2 = 52" "float_add 52 2 = 54" "float_add 60 2 = 62" "float_add 62 2 = 64"
  "float_add 10 1 = 11" "float_add 20 1 = 21" "float_add 0 1 = 1" "float_add 0 2 = 2"
  using float_round_int[of 52] float_round_int[of 54] float_round_int[of 62]
    float_round_int[of 64] float_round_int[of 11] float_round_int[of 21]
    float_round_int[of 1] float_round_int[of 2]
  by (simp_all add: float_add_def)

lemma float_add_rounds: "float_add 33554432 2 = 33554432"
proof -
  have "round_sig24 (33554434 * 2 ^ 149) = 2 ^ 149 * round_sig24 33554434"
    by (rule round_sig24_scale) simp
  also have "round_sig24 33554434 = 33554432"
    by (simp add: round_sig24.simps[of 33554434] round_sig24.simps[of 16777217]
        round_sig24.simps[of "16777217 / 2"] round_half_even_def)
  finally show ?thesis by (simp add: float_add_def float_round_def)
qed


subsection \<open>Writing the output buffer\<close>

lemma set_data_apply:
  "set_data t D s b = (if b = t then (s t)\<lparr>cpu_data := D\<rparr> else s b)"
  by (simp add: set_data_def)

lemma set_data_twice [simp]: "set_data t D' (set_data t D s) = set_data t D' s"
  by (simp add: set_data_def)

lemma mutable_cpu_data_set: "mutable_cpu_data t f s = set_data t (f (cpu_data (s t))) s"
  by (simp add: mutable_cpu_data_def set_data_def)

lemma set_data_same: "set_data t (cpu_data (s t)) s = s"
  by (simp add: set_data_def)

subsection \<open>Loops whose steps update the output buffer position by position\<close>

text \<open>
  When every step \<open>i\<close> of a loop applies \<open>g i k\<close> to the value at position \<open>k\<close> of the output
  buffer and keeps an invariant, the loop returns and has applied the \<open>g i k\<close> in the order
  of its indices.
\<close>

lemma for_loop_pointwise:
  assumes step: "\<And>i s. i \<in> set js \<Longrightarrow> I s \<Longrightarrow>
            \<exists>D. body i s = Inr (set_data t D s) \<and> length D = length (cpu_data (s t)) \<and>
                (\<forall>k<length D. D ! k = g i k (cpu_data (s t) ! k))"
    and inv: "\<And>s D. I s \<Longrightarrow> length D = length (cpu_data (s t)) \<Longrightarrow> I (set_data t D s)"
    and "I s"
  shows "\<exists>D. for_loop js body s = Inr (set_data t D s) \<and> length D = length (cpu_data (s t)) \<and>
            (\<forall>k<length D. D ! k = fold (\<lambda>i. g i k) js (cpu_data (s t) ! k))"
  using assms
proof (induction js arbitrary: s)
  case Nil
  have "for_loop [] body s = Inr (set_data t (cpu_data (s t)) s)"
    by (simp add: set_data_same)
  then show ?case by (intro exI[of _ "cpu_data (s t)"]) simp
next
  case (Cons j js)
  from Cons.prems(1)[of j s] Cons.prems(3)
  obtain D1 where b: "body j s = Inr (set_data t D1 s)"
    and l1: "length D1 = length (cpu_data (s t))"
    and v1: "\<forall>k<length D1. D1 ! k = g j k (cpu_data (s t) ! k)"
    by auto
  let ?s1 = "set_data t D1 s"
  have s1t: "cpu_data (?s1 t) = D1" by (simp add: set_data_apply)
  have I1: "I ?s1" using Cons.prems(2)[OF Cons.prems(3) l1] .
  have "\<exists>D. for_loop js body ?s1 = Inr (set_data t D ?s1) \<and>
            length D = length (cpu_data (?s1 t)) \<and>
            (\<forall>k<length D. D ! k = fold (\<lambda>i. g i k) js (cpu_data (?s1 t) ! k))"
  proof (rule Cons.IH)
    show "\<And>i s. i \<in> set js \<Longrightarrow> I s \<Longrightarrow>
            \<exists>D. body i s = Inr (set_data t D s) \<and> length D = length (cpu_data (s t)) \<and>
                (\<forall>k<length D. D ! k = g i k (cpu_data (s t) ! k))"
      using Cons.prems(1) by simp
    show "\<And>s D. I s \<Longrightarrow> length D = length (cpu_data (s t)) \<Longrightarrow> I (set_data t D s)"
      using Cons.prems(2) .
    show "I ?s1" by (rule I1)
  qed
  then obtain D2 where r: "for_loop js body ?s1 = Inr (set_data t D2 s)"
    and l2: "length D2 = length D1"
    and v2: "\<forall>k<length D2. D2 ! k = fold (\<lambda>i. g i k) js (D1 ! k)"
    using s1t by auto
  have "for_loop (j # js) body s = Inr (set_data t D2 s)" using b r by simp
  moreover have "length D2 = length (cpu_data (s t))" using l1 l2 by simp
  moreover have "\<forall>k<length D2. D2 ! k = fold (\<lambda>i. g i k) (j # js) (cpu_data (s t) ! k)"
    using v1 v2 l2 by simp
  ultimately show ?case by blast
qed


lemma pixel_body_pointwise:
  assumes "t \<noteq> l" "top_shaped L (s t)" "j < height_m L * width_m L"
    and "pixel_label (s l) n j = Some label"
    and "label \<in> ignore_label_m L \<or> label = 0 \<or> (0 < label \<and> label < int (channels_m L))"
  shows "\<exists>D. pixel_body add L [a, l] [t] (Blob_offset (s l) n 0 0 0) (Blob_offset (s t) n 0 0 0)
               (height_m L * width_m L) j s = Inr (set_data t D s) \<and>
             length D = length (cpu_data (s t)) \<and>
             (\<forall>k<length D. D ! k = pixel_upd add L n j (pixel_label (s l) n j) k (cpu_data (s t) ! k))"
proof -
  let ?T = "cpu_data (s t)"
  let ?sd = "height_m L * width_m L"
  let ?td = "n * channels_m L * ?sd"
  let ?i1 = "?td + j"
  let ?i2 = "?td + (nat label * ?sd + j)"
  let ?D1 = "?T[?i1 := add (?T ! ?i1) (bg_bias_m L)]"
  let ?D2 = "?D1[?i2 := add (?D1 ! ?i2) (fg_bias_m L)]"
  have td: "Blob_offset (s t) n 0 0 0 = ?td"
    using assms(2) by (simp add: Blob_offset_plane top_shaped_def)
  have rd: "static_cast_int (cpu_data (s l) ! (Blob_offset (s l) n 0 0 0 + j)) = Some label"
    using assms(4) by (simp add: pixel_label_def)
  have i2: "?i2 = (n * channels_m L + nat label) * ?sd + j"
    by (simp add: algebra_simps)
  consider (ign) "label \<in> ignore_label_m L"
    | (bg) "label \<notin> ignore_label_m L" "label = 0"
    | (fg) "label \<notin> ignore_label_m L" "0 < label" "label < int (channels_m L)"
    using assms(5) by auto
  then show ?thesis
  proof cases
    case ign
    then have "pixel_body add L [a, l] [t] (Blob_offset (s l) n 0 0 0) (Blob_offset (s t) n 0 0 0)
                 ?sd j s = Inr (set_data t ?T s)"
      using rd by (simp add: pixel_body_def set_data_same)
    moreover have "\<forall>k v. pixel_upd add L n j (pixel_label (s l) n j) k v = v"
      using ign assms(4) by (simp add: pixel_upd_def)
    ultimately show ?thesis by (intro exI[of _ ?T]) simp
  next
    case bg
    then have "pixel_body add L [a, l] [t] (Blob_offset (s l) n 0 0 0) (Blob_offset (s t) n 0 0 0)
                 ?sd j s = Inr (set_data t ?D1 s)"
      using rd td by (simp add: pixel_body_def mutable_cpu_data_set)
    moreover have "\<forall>k<length ?D1. ?D1 ! k = pixel_upd add L n j (pixel_label (s l) n j) k (?T ! k)"
      using bg assms(4) by (auto simp: pixel_upd_def nth_list_update)
    ultimately show ?thesis by (intro exI[of _ ?D1]) simp
  next
    case fg
    have "0 < ?sd" using assms(3) by linarith
    moreover have "0 < nat label" using fg(2) by simp
    ultimately have "0 < nat label * ?sd" by (simp del: mult_pos_pos)
    then have ne: "?i1 \<noteq> ?i2" by linarith
    have "pixel_body add L [a, l] [t] (Blob_offset (s l) n 0 0 0) (Blob_offset (s t) n 0 0 0)
                 ?sd j s = Inr (set_data t ?D2 s)"
      using fg rd td by (simp add: pixel_body_def mutable_cpu_data_set Let_def set_data_apply)
    moreover have "\<forall>k<length ?D2. ?D2 ! k = pixel_upd add L n j (pixel_label (s l) n j) k (?T ! k)"
    proof (intro allI impI)
      fix k assume k: "k < length ?D2"
      have pa: "pixel_upd add L n j (pixel_label (s l) n j) k (?T ! k) =
                  (if k = ?i1 then add (?T ! k) (bg_bias_m L)
                   else if k = ?i2 then add (?T ! k) (fg_bias_m L) else ?T ! k)"
        using fg assms(4) i2 by (simp add: pixel_upd_def)
      show "?D2 ! k = pixel_upd add L n j (pixel_label (s l) n j) k (?T ! k)"
        unfolding pa using k ne by (auto simp: nth_list_update)
    qed
    ultimately show ?thesis by (intro exI[of _ ?D2]) simp
  qed
qed


lemma sample_body_pixel_pointwise:
  assumes "t \<noteq> l" "label_type (bias_channel_param L) = PIXEL" "top_shaped L (s t)"
    and "\<forall>j<height_m L * width_m L. pixel_label_ok L (pixel_label (s l) n j)"
  shows "\<exists>D. sample_body add L [a, l] [t] n s = Inr (set_data t D s) \<and>
             length D = length (cpu_data (s t)) \<and>
             (\<forall>k<length D. D ! k = pixel_sample_upd add L (s l) n k (cpu_data (s t) ! k))"
proof -
  define I where "I = (\<lambda>s'::store. s' l = s l \<and> top_shaped L (s' t))"
  let ?ld = "Blob_offset (s l) n 0 0 0" and ?td = "Blob_offset (s t) n 0 0 0"
  have "\<exists>D. for_loop [0..<height_m L * width_m L]
               (pixel_body add L [a, l] [t] ?ld ?td (height_m L * width_m L)) s = Inr (set_data t D s) \<and>
             length D = length (cpu_data (s t)) \<and>
             (\<forall>k<length D. D ! k =
                fold (\<lambda>j. pixel_upd add L n j (pixel_label (s l) n j) k) [0..<height_m L * width_m L]
                  (cpu_data (s t) ! k))"
  proof (rule for_loop_pointwise[where I = I])
    fix j s' assume j: "j \<in> set [0..<height_m L * width_m L]" and "I s'"
    then have sl: "s' l = s l" and ts: "top_shaped L (s' t)" by (simp_all add: I_def)
    from j have jb: "j < height_m L * width_m L" by simp
    from jb assms(4) obtain label where lab: "pixel_label (s l) n j = Some label"
      and ok: "label \<in> ignore_label_m L \<or> label = 0 \<or> (0 < label \<and> label < int (channels_m L))"
      by (auto simp: pixel_label_ok_def split: option.splits)
    have td: "Blob_offset (s' t) n 0 0 0 = ?td"
      using ts assms(3) by (simp add: Blob_offset_def top_shaped_def)
    show "\<exists>D. pixel_body add L [a, l] [t] ?ld ?td (height_m L * width_m L) j s' = Inr (set_data t D s') \<and>
              length D = length (cpu_data (s' t)) \<and>
              (\<forall>k<length D. D ! k = pixel_upd add L n j (pixel_label (s l) n j) k (cpu_data (s' t) ! k))"
      using pixel_body_pointwise[where s = s' and t = t and l = l and L = L and n = n
          and j = j and label = label and a = a and add = add] assms(1) ts jb lab ok sl td by simp
  next
    fix s' D assume "I s'"
    then show "I (set_data t D s')" using assms(1)
      by (simp add: I_def set_data_apply top_shaped_def)
  next
    show "I s" using assms(3) by (simp add: I_def)
  qed
  then show ?thesis using assms(2) by (simp add: sample_body_def Let_def pixel_sample_upd_def)
qed


lemma Forward_cpu_pixel_pointwise:
  assumes "t \<noteq> l" "label_type (bias_channel_param L) = PIXEL" "top_shaped L (s t)"
    and "\<forall>n<num_m L. \<forall>j<height_m L * width_m L. pixel_label_ok L (pixel_label (s l) n j)"
  shows "\<exists>D. Forward_cpu add L [a, l] [t] s = Inr (set_data t D s) \<and>
             length D = length (caffe_copy (Blob_count (s a)) (cpu_data (s a)) (cpu_data (s t))) \<and>
             (\<forall>k<length D. D ! k =
                fold (\<lambda>n. pixel_sample_upd add L (s l) n k) [0..<num_m L]
                  (caffe_copy (Blob_count (s a)) (cpu_data (s a)) (cpu_data (s t)) ! k))"
proof -
  define I where "I = (\<lambda>s'::store. s' l = s l \<and> top_shaped L (s' t))"
  let ?D0 = "caffe_copy (Blob_count (s a)) (cpu_data (s a)) (cpu_data (s t))"
  let ?s1 = "set_data t ?D0 s"
  have "\<exists>D. for_loop [0..<num_m L] (sample_body add L [a, l] [t]) ?s1 = Inr (set_data t D ?s1) \<and>
             length D = length (cpu_data (?s1 t)) \<and>
             (\<forall>k<length D. D ! k =
                fold (\<lambda>n. pixel_sample_upd add L (s l) n k) [0..<num_m L] (cpu_data (?s1 t) ! k))"
  proof (rule for_loop_pointwise[where I = I])
    fix n s' assume n: "n \<in> set [0..<num_m L]" and "I s'"
    then have sl: "s' l = s l" and ts: "top_shaped L (s' t)" by (simp_all add: I_def)
    from n assms(4) sl
    have "\<forall>j<height_m L * width_m L. pixel_label_ok L (pixel_label (s' l) n j)"
      by simp
    from sample_body_pixel_pointwise[where s = s' and t = t and l = l and L = L and n = n
        and a = a and add = add] assms(1,2) ts this sl
    show "\<exists>D. sample_body add L [a, l] [t] n s' = Inr (set_data t D s') \<and>
              length D = length (cpu_data (s' t)) \<and>
              (\<forall>k<length D. D ! k = pixel_sample_upd add L (s l) n k (cpu_data (s' t) ! k))"
      by simp
  next
    fix s' D assume "I s'"
    then show "I (set_data t D s')" using assms(1)
      by (simp add: I_def set_data_apply top_shaped_def)
  next
    show "I ?s1" using assms(1,3) by (simp add: I_def set_data_apply top_shaped_def)
  qed
  then show ?thesis
    by (simp add: Forward_cpu_def mutable_cpu_data_set set_data_apply)
qed

subsection \<open>Evaluating the updates at a position (n, c, h, w)\<close>


lemma fold_skip:
  "n \<notin> set js \<Longrightarrow> fold (\<lambda>i v. if i = n then F i v else v) js v = v"
  by (induction js arbitrary: v) auto

lemma fold_delta:
  assumes "n < N"
  shows "fold (\<lambda>i v. if i = n then F i v else v) [0..<N] v = F n v"
proof -
  have sp: "[0..<N] = [0..<n] @ n # [Suc n..<N]"
    using assms by (metis less_imp_le_nat upt_add_eq_append upt_conv_Cons le_add_diff_inverse
        plus_nat.add_0 zero_le)
  have "fold (\<lambda>i v. if i = n then F i v else v) [0..<N] v =
          fold (\<lambda>i v. if i = n then F i v else v) [Suc n..<N]
            (F n (fold (\<lambda>i v. if i = n then F i v else v) [0..<n] v))"
    by (simp add: sp)
  also have "fold (\<lambda>i v. if i = n then F i v else v) [0..<n] v = v"
    by (rule fold_skip) simp
  also have "fold (\<lambda>i v. if i = n then F i v else v) [Suc n..<N] (F n v) = F n v"
    by (rule fold_skip) simp
  finally show ?thesis .
qed


lemma pixel_upd_at:
  assumes "c < channels_m L" "p < height_m L * width_m L" "j < height_m L * width_m L"
  shows "pixel_upd add L n' j lab ((n * channels_m L + c) * (height_m L * width_m L) + p) v =
           (if n' = n \<and> j = p then pixel_apply add L c lab v else v)"
proof (cases lab)
  case None
  then show ?thesis by (simp add: pixel_upd_def pixel_apply_def)
next
  case (Some label)
  let ?M = "height_m L * width_m L" and ?C = "channels_m L"
  have zc: "0 < ?C" using assms(1) by simp
  have e1: "(n * ?C + c) * ?M + p = n' * ?C * ?M + j \<longleftrightarrow> n = n' \<and> c = 0 \<and> p = j"
  proof -
    have "(n * ?C + c) * ?M + p = (n' * ?C + 0) * ?M + j \<longleftrightarrow> n * ?C + c = n' * ?C + 0 \<and> p = j"
      using mixed_radix_eq[OF assms(2,3)] .
    moreover have "n * ?C + c = n' * ?C + 0 \<longleftrightarrow> n = n' \<and> c = 0"
      using mixed_radix_eq[OF assms(1) zc] .
    ultimately show ?thesis by simp
  qed
  show ?thesis
  proof (cases "label \<in> ignore_label_m L \<or> \<not> (label = 0 \<or> 0 < label \<and> label < int ?C)")
    case True
    then show ?thesis using Some by (simp add: pixel_upd_def pixel_apply_def)
  next
    case False
    show ?thesis
    proof (cases "0 < label")
      case pos: True
      with False have lt: "nat label < ?C" by auto
      have e2: "(n * ?C + c) * ?M + p = (n' * ?C + nat label) * ?M + j
                  \<longleftrightarrow> n = n' \<and> c = nat label \<and> p = j"
      proof -
        have "(n * ?C + c) * ?M + p = (n' * ?C + nat label) * ?M + j
                \<longleftrightarrow> n * ?C + c = n' * ?C + nat label \<and> p = j"
          using mixed_radix_eq[OF assms(2,3)] .
        moreover have "n * ?C + c = n' * ?C + nat label \<longleftrightarrow> n = n' \<and> c = nat label"
          using mixed_radix_eq[OF assms(1) lt] .
        ultimately show ?thesis by simp
      qed
      have lc: "c = nat label \<longleftrightarrow> label = int c" using pos by auto
      show ?thesis using Some False pos e1 e2 lc
        by (auto simp: pixel_upd_def pixel_apply_def)
    next
      case npos: False
      with False have l0: "label = 0" by auto
      show ?thesis using Some False l0 e1
        by (auto simp: pixel_upd_def pixel_apply_def)
    qed
  qed
qed


lemma pixel_fold_at:
  assumes "n < num_m L" "c < channels_m L" "p < height_m L * width_m L"
  shows "fold (\<lambda>n'. pixel_sample_upd add L b n' ((n * channels_m L + c) * (height_m L * width_m L) + p))
           [0..<num_m L] v =
         pixel_apply add L c (pixel_label b n p) v"
proof -
  let ?k = "(n * channels_m L + c) * (height_m L * width_m L) + p"
  have inner: "pixel_sample_upd add L b n' ?k =
                 (\<lambda>w. if n' = n then pixel_apply add L c (pixel_label b n' p) w else w)" for n'
  proof (rule ext)
    fix w
    have "fold (\<lambda>j. pixel_upd add L n' j (pixel_label b n' j) ?k) [0..<height_m L * width_m L] w =
          fold (\<lambda>j v. if j = p then (if n' = n then pixel_apply add L c (pixel_label b n' j) v else v)
                       else v) [0..<height_m L * width_m L] w"
      by (rule fold_cong[OF refl refl]) (simp add: fun_eq_iff pixel_upd_at[OF assms(2,3)])
    also have "\<dots> = (if n' = n then pixel_apply add L c (pixel_label b n' p) w else w)"
      by (simp only: fold_delta[OF assms(3)])
    finally show "pixel_sample_upd add L b n' ?k w =
        (if n' = n then pixel_apply add L c (pixel_label b n' p) w else w)"
      by (simp add: pixel_sample_upd_def)
  qed
  show ?thesis
    by (simp only: inner fold_delta[OF assms(1)])
qed

subsection \<open>What LayerSetUp and Reshape establish\<close>

lemma fold_insert_ignore:
  "fold (\<lambda>i K. K\<lparr>ignore_label_m := insert (xs ! i) (ignore_label_m K)\<rparr>) js (K::BiasChannelLayer) =
     K\<lparr>ignore_label_m := ignore_label_m K \<union> (\<lambda>i. xs ! i) ` set js\<rparr>"
  by (induction js arbitrary: K) (simp_all add: insert_commute Un_commute)

lemma nth_image_upt: "(!) xs ` {0..<length xs} = set xs"
proof -
  have "set (map ((!) xs) [0..<length xs]) = set xs" by (simp only: map_nth)
  then show ?thesis by simp
qed

lemma LayerSetUp_Inr:
  assumes "LayerSetUp L0 bottom top_v = Inr L1"
  shows "L1 = L0\<lparr>bg_bias_m := bg_bias (bias_channel_param L0),
                 fg_bias_m := fg_bias (bias_channel_param L0),
                 ignore_label_m := ignore_label_m L0 \<union> ignore_label_set (bias_channel_param L0)\<rparr>"
    and "0 \<le> bg_bias (bias_channel_param L0)" and "0 \<le> fg_bias (bias_channel_param L0)"
  using assms
  by (auto simp: LayerSetUp_def Let_def fold_insert_ignore nth_image_upt ignore_label_set_def
      split: if_splits)

lemma Reshape_Inr:
  assumes "Reshape L1 [a, l] [t] s0 = Inr (L, s)"
  shows "L = L1\<lparr>num_m := num (s0 a), channels_m := channels (s0 a), height_m := height (s0 a),
                width_m := width (s0 a), max_labels_m := channels (s0 l)\<rparr>"
    and "s = s0(t := Blob_Reshape (s0 t) (num (s0 a)) (channels (s0 a)) (height (s0 a)) (width (s0 a)))"
    and "num (s0 l) = num (s0 a)" and "1 \<le> channels (s0 l)"
    and "label_type (bias_channel_param L1) = IMAGE \<Longrightarrow> height (s0 l) = 1 \<and> width (s0 l) = 1"
    and "label_type (bias_channel_param L1) = PIXEL \<Longrightarrow>
           channels (s0 l) = 1 \<and> height (s0 l) = height (s0 a) \<and> width (s0 l) = width (s0 a)"
  using assms
  by (auto simp: Reshape_def Let_def split: if_splits LabelType.splits)

subsection \<open>The output of Forward, element by element\<close>

lemma element_in_count:
  fixes n N c C h H w W :: nat
  assumes "n < N" "c < C" "h < H" "w < W"
  shows "(n * C + c) * (H * W) + (h * W + w) < N * C * H * W"
proof -
  have "(n * C + c) * (H * W) + (h * W + w) < (n * C + c) * (H * W) + H * W"
    using spatial_index_bound[OF assms(3,4)] by simp
  also have "\<dots> \<le> N * C * (H * W)" by (rule plane_in_count[OF assms(1,2)])
  finally show ?thesis by (simp add: mult.assoc)
qed


lemma Forward_cpu_pixel_element:
  assumes sep: "t \<noteq> l" and mode: "label_type (bias_channel_param L) = PIXEL"
    and dims: "num (s a) = num_m L" "channels (s a) = channels_m L"
              "height (s a) = height_m L" "width (s a) = width_m L"
    and top: "top_shaped L (s t)"
    and buf: "Blob_count (s a) \<le> length (cpu_data (s a))"
             "Blob_count (s a) \<le> length (cpu_data (s t))"
    and labels: "\<forall>n<num_m L. \<forall>j<height_m L * width_m L. pixel_label_ok L (pixel_label (s l) n j)"
    and idx: "n < num_m L" "c < channels_m L" "h < height_m L" "w < width_m L"
  shows "\<exists>D. Forward_cpu add L [a, l] [t] s = Inr (set_data t D s) \<and>
             D ! ((n * channels_m L + c) * (height_m L * width_m L) + (h * width_m L + w)) =
               pixel_apply add L c (pixel_label (s l) n (h * width_m L + w))
                 (cpu_data (s a) ! ((n * channels_m L + c) * (height_m L * width_m L) + (h * width_m L + w)))"
proof -
  let ?k = "(n * channels_m L + c) * (height_m L * width_m L) + (h * width_m L + w)"
  let ?D0 = "caffe_copy (Blob_count (s a)) (cpu_data (s a)) (cpu_data (s t))"
  have cnt: "Blob_count (s a) = num_m L * channels_m L * height_m L * width_m L"
    using dims by (simp add: Blob_count_def)
  have k: "?k < Blob_count (s a)" unfolding cnt by (rule element_in_count[OF idx])
  have len0: "length ?D0 = length (cpu_data (s t))" by (rule length_caffe_copy[OF buf])
  have v0: "?D0 ! ?k = cpu_data (s a) ! ?k" by (rule nth_caffe_copy[OF k buf(1)])
  from Forward_cpu_pixel_pointwise[where a = a and add = add, OF sep mode top labels]
  obtain D where r: "Forward_cpu add L [a, l] [t] s = Inr (set_data t D s)"
    and len: "length D = length ?D0"
    and v: "\<forall>k<length D. D ! k =
              fold (\<lambda>n. pixel_sample_upd add L (s l) n k) [0..<num_m L] (?D0 ! k)"
    by blast
  have "?k < length D" using k len len0 buf(2) by simp
  with v have "D ! ?k = fold (\<lambda>n. pixel_sample_upd add L (s l) n ?k) [0..<num_m L] (?D0 ! ?k)"
    by blast
  also have "\<dots> = pixel_apply add L c (pixel_label (s l) n (h * width_m L + w)) (?D0 ! ?k)"
    by (rule pixel_fold_at[OF idx(1,2) spatial_index_bound[OF idx(3,4)]])
  finally show ?thesis using r v0 by auto
qed


lemma pixel_label_at:
  assumes "channels b = 1" "0 < width b"
  shows "pixel_label b n j = label_at b n 0 (j div width b) (j mod width b)"
proof -
  have "Blob_offset b n 0 0 0 + j = Blob_offset b n 0 (j div width b) (j mod width b)"
    using assms by (simp add: Blob_offset_def algebra_simps)
  then show ?thesis by (simp add: pixel_label_def label_at_def)
qed

lemma pixel_label_at_hw:
  assumes "channels b = 1" "w < width b"
  shows "pixel_label b n (h * width b + w) = label_at b n 0 h w"
  using assms by (simp add: pixel_label_def label_at_def Blob_offset_def algebra_simps)

lemma reshaped_top:
  assumes "s = s0(t := Blob_Reshape (s0 t) (num (s0 a)) (channels (s0 a)) (height (s0 a)) (width (s0 a)))"
    and "Blob_count (s0 a) \<le> length (cpu_data (s0 a))"
  shows "num (s a) = num (s0 a)" "channels (s a) = channels (s0 a)"
    "height (s a) = height (s0 a)" "width (s a) = width (s0 a)"
    "channels (s t) = channels (s0 a)" "height (s t) = height (s0 a)" "width (s t) = width (s0 a)"
    "cpu_data (s a) = cpu_data (s0 a)"
    "Blob_count (s a) \<le> length (cpu_data (s t))"
    "t \<noteq> l \<Longrightarrow> s l = s0 l"
  using assms by (auto simp: Blob_Reshape_def Blob_count_def)


lemma pixel_forward_pipeline:
  assumes fresh: "ignore_label_m L0 = {}"
    and lsu: "LayerSetUp L0 bottom top_v = Inr L1"
    and mode: "label_type (bias_channel_param L0) = PIXEL"
    and reshape: "Reshape L1 [a, l] [t] s0 = Inr (L, s)"
    and sep: "t \<noteq> l"
    and buf: "Blob_count (s0 a) \<le> length (cpu_data (s0 a))"
    and labels: "\<forall>n<num (s0 a). \<forall>h<height (s0 a). \<forall>w<width (s0 a). \<exists>label.
                   label_at (s0 l) n 0 h w = Some label \<and>
                   (label \<in> ignore_label_set (bias_channel_param L0) \<or>
                    0 \<le> label \<and> label < int (channels (s0 a)))"
    and idx: "n < num (s0 a)" "c < channels (s0 a)" "h < height (s0 a)" "w < width (s0 a)"
    and lab: "label_at (s0 l) n 0 h w = Some label"
  shows "\<exists>s'. Forward_cpu add L [a, l] [t] s = Inr s' \<and>
           Blob_offset (s' t) n c h w = Blob_offset (s0 a) n c h w \<and>
           cpu_data (s' t) ! Blob_offset (s' t) n c h w =
             (if label \<in> ignore_label_set (bias_channel_param L0)
              then cpu_data (s0 a) ! Blob_offset (s0 a) n c h w
              else if c = 0
              then add (cpu_data (s0 a) ! Blob_offset (s0 a) n c h w) (bg_bias (bias_channel_param L0))
              else if 0 < label \<and> label = int c
              then add (cpu_data (s0 a) ! Blob_offset (s0 a) n c h w) (fg_bias (bias_channel_param L0))
              else cpu_data (s0 a) ! Blob_offset (s0 a) n c h w)"
proof -
  let ?P = "bias_channel_param L0"
  note su = LayerSetUp_Inr[OF lsu]
  note rs = Reshape_Inr[OF reshape]
  note rt = reshaped_top[OF rs(2) buf]
  have Lf: "bias_channel_param L = ?P" "bg_bias_m L = bg_bias ?P" "fg_bias_m L = fg_bias ?P"
    "ignore_label_m L = ignore_label_set ?P"
    "num_m L = num (s0 a)" "channels_m L = channels (s0 a)" "height_m L = height (s0 a)"
    "width_m L = width (s0 a)" "max_labels_m L = channels (s0 l)"
    using fresh by (simp_all add: rs(1) su(1))
  have sl: "s l = s0 l" using rt(10) sep by simp
  have lsh: "channels (s0 l) = 1" "height (s0 l) = height (s0 a)" "width (s0 l) = width (s0 a)"
    using rs(6) mode by (simp_all add: su(1))
  have wpos: "0 < width (s0 a)" using idx(4) by simp
  have ok: "\<forall>n<num_m L. \<forall>j<height_m L * width_m L. pixel_label_ok L (pixel_label (s l) n j)"
  proof (intro allI impI)
    fix n' j assume n': "n' < num_m L" and j: "j < height_m L * width_m L"
    have n0: "n' < num (s0 a)" using n' by (simp add: Lf)
    have hh: "j div width (s0 a) < height (s0 a)"
      using j by (simp add: Lf less_mult_imp_div_less)
    have ww: "j mod width (s0 a) < width (s0 a)" using wpos by simp
    from labels[rule_format, OF n0 hh ww] obtain label' where
      "label_at (s0 l) n' 0 (j div width (s0 a)) (j mod width (s0 a)) = Some label'"
      "label' \<in> ignore_label_set ?P \<or> 0 \<le> label' \<and> label' < int (channels (s0 a))"
      by blast
    moreover have "pixel_label (s l) n' j =
                     label_at (s0 l) n' 0 (j div width (s0 a)) (j mod width (s0 a))"
      using pixel_label_at[of "s0 l" n' j] lsh wpos by (simp add: sl)
    ultimately show "pixel_label_ok L (pixel_label (s l) n' j)"
      by (auto simp: pixel_label_ok_def Lf)
  qed
  have "\<exists>D. Forward_cpu add L [a, l] [t] s = Inr (set_data t D s) \<and>
             D ! ((n * channels_m L + c) * (height_m L * width_m L) + (h * width_m L + w)) =
               pixel_apply add L c (pixel_label (s l) n (h * width_m L + w))
                 (cpu_data (s a) ! ((n * channels_m L + c) * (height_m L * width_m L) + (h * width_m L + w)))"
  proof (rule Forward_cpu_pixel_element[OF sep])
    show "label_type (bias_channel_param L) = PIXEL" using mode by (simp add: Lf)
    show "top_shaped L (s t)" by (simp add: top_shaped_def Lf rt)
    show "Blob_count (s a) \<le> length (cpu_data (s a))"
      using buf by (simp add: rt Blob_count_def)
    show "Blob_count (s a) \<le> length (cpu_data (s t))" by (rule rt(9))
    show "\<forall>n<num_m L. \<forall>j<height_m L * width_m L. pixel_label_ok L (pixel_label (s l) n j)"
      by (rule ok)
  qed (simp_all add: Lf rt idx)
  then obtain D where r: "Forward_cpu add L [a, l] [t] s = Inr (set_data t D s)"
    and v: "D ! ((n * channels_m L + c) * (height_m L * width_m L) + (h * width_m L + w)) =
               pixel_apply add L c (pixel_label (s l) n (h * width_m L + w))
                 (cpu_data (s a) ! ((n * channels_m L + c) * (height_m L * width_m L) + (h * width_m L + w)))"
    by blast
  have o1: "Blob_offset (set_data t D s t) n c h w =
              (n * channels_m L + c) * (height_m L * width_m L) + (h * width_m L + w)"
    by (simp add: Blob_offset_plane set_data_apply Lf rt)
  have o2: "Blob_offset (s0 a) n c h w =
              (n * channels_m L + c) * (height_m L * width_m L) + (h * width_m L + w)"
    by (simp add: Blob_offset_plane Lf)
  have pl: "pixel_label (s l) n (h * width_m L + w) = Some label"
    using pixel_label_at_hw[of "s0 l" w n h] lsh idx(4) lab by (simp add: sl Lf)
  from labels[rule_format, OF idx(1,3,4)] lab
  have rng: "label \<in> ignore_label_set ?P \<or> 0 \<le> label \<and> label < int (channels (s0 a))"
    by simp
  have pb: "pixel_apply add L c (Some label) v =
              (if label \<in> ignore_label_set ?P then v
               else if c = 0 then add v (bg_bias ?P)
               else if 0 < label \<and> label = int c then add v (fg_bias ?P) else v)" for v
    using rng by (auto simp: pixel_apply_def Lf)
  have "cpu_data (set_data t D s t) ! Blob_offset (set_data t D s t) n c h w =
             (if label \<in> ignore_label_set ?P
              then cpu_data (s0 a) ! Blob_offset (s0 a) n c h w
              else if c = 0
              then add (cpu_data (s0 a) ! Blob_offset (s0 a) n c h w) (bg_bias ?P)
              else if 0 < label \<and> label = int c
              then add (cpu_data (s0 a) ! Blob_offset (s0 a) n c h w) (fg_bias ?P)
              else cpu_data (s0 a) ! Blob_offset (s0 a) n c h w)"
    unfolding o1 o2 using v by (simp only: pl pb set_data_apply rt) simp
  moreover have "Blob_offset (set_data t D s t) n c h w = Blob_offset (s0 a) n c h w"
    by (simp only: o1 o2)
  ultimately show ?thesis using r by blast
qed

subsection \<open>Forward writes only the data of the output blob\<close>

lemma state_of_simps [simp]: "state_of (Inl (e, st)) = st" "state_of (Inr st) = st"
  by (simp_all add: state_of_def)

lemma for_loop_writes_top:
  assumes "\<And>i s. \<exists>D. state_of (body i s) = set_data t D s"
  shows "\<exists>D. state_of (for_loop js body s) = set_data t D s"
proof (induction js arbitrary: s)
  case Nil
  show ?case by (intro exI[of _ "cpu_data (s t)"]) (simp add: set_data_same)
next
  case (Cons j js)
  from assms[of j s] obtain D1 where b: "state_of (body j s) = set_data t D1 s" by blast
  show ?case
  proof (cases "body j s")
    case (Inl e)
    then show ?thesis using b by (cases e) auto
  next
    case (Inr s1)
    with b have s1: "s1 = set_data t D1 s" by simp
    from Cons.IH[of s1] obtain D2 where "state_of (for_loop js body s1) = set_data t D2 s1"
      by blast
    then show ?thesis using Inr s1 by auto
  qed
qed

lemma image_body_writes_top:
  "\<exists>D. state_of (image_body add L bottom top_v n j s) = set_data (top_v ! 0) D s"
proof -
  have "state_of (image_body add L bottom top_v n j s) = s \<or>
        (\<exists>D. state_of (image_body add L bottom top_v n j s) = set_data (top_v ! 0) D s)"
    by (auto simp: image_body_def mutable_cpu_data_set Let_def split: option.splits)
  then show ?thesis using set_data_same[of "top_v ! 0" s] by metis
qed

lemma pixel_body_writes_top:
  "\<exists>D. state_of (pixel_body add L bottom top_v ld td sd j s) = set_data (top_v ! 0) D s"
proof -
  have "state_of (pixel_body add L bottom top_v ld td sd j s) = s \<or>
        (\<exists>D. state_of (pixel_body add L bottom top_v ld td sd j s) = set_data (top_v ! 0) D s)"
    by (auto simp: pixel_body_def mutable_cpu_data_set Let_def split: option.splits)
  then show ?thesis using set_data_same[of "top_v ! 0" s] by metis
qed

lemma sample_body_writes_top:
  "\<exists>D. state_of (sample_body add L bottom top_v n s) = set_data (top_v ! 0) D s"
proof (cases "label_type (bias_channel_param L)")
  case IMAGE
  then show ?thesis
    using for_loop_writes_top[where body = "image_body add L bottom top_v n" and t = "top_v ! 0",
        OF image_body_writes_top]
    by (simp add: sample_body_def)
next
  case PIXEL
  then show ?thesis
    using for_loop_writes_top[where t = "top_v ! 0"
        and body = "pixel_body add L bottom top_v (Blob_offset (s (bottom ! 1)) n 0 0 0)
                      (Blob_offset (s (top_v ! 0)) n 0 0 0) (height_m L * width_m L)",
        OF pixel_body_writes_top]
    by (simp add: sample_body_def Let_def)
qed

lemma Forward_cpu_writes_top:
  "\<exists>D. state_of (Forward_cpu add L bottom top_v s) = set_data (top_v ! 0) D s"
proof -
  let ?s1 = "mutable_cpu_data (top_v ! 0)
               (caffe_copy (Blob_count (s (bottom ! 0))) (cpu_data (s (bottom ! 0)))) s"
  from for_loop_writes_top[where body = "sample_body add L bottom top_v" and t = "top_v ! 0",
      OF sample_body_writes_top]
  obtain D where "state_of (for_loop [0..<num_m L] (sample_body add L bottom top_v) ?s1) =
                    set_data (top_v ! 0) D ?s1" by blast
  then have "state_of (Forward_cpu add L bottom top_v s) = set_data (top_v ! 0) D s"
    by (simp add: Forward_cpu_def mutable_cpu_data_set)
  then show ?thesis ..
qed

subsection \<open>The device path\<close>

lemma mutable_gpu_data_eq: "mutable_gpu_data = mutable_cpu_data"
  by (intro ext) (simp add: mutable_gpu_data_def mutable_cpu_data_def gpu_data_def)

lemma caffe_gpu_add_scalar_eq: "caffe_gpu_add_scalar = caffe_add_scalar"
  by (intro ext) (simp add: caffe_gpu_add_scalar_def caffe_add_scalar_def)

lemma Forward_gpu_eq_cpu: "Forward_gpu add L bottom top_v s = Forward_cpu add L bottom top_v s"
proof (cases "label_type (bias_channel_param L)")
  case IMAGE
  have b: "image_body_gpu add L bottom top_v = image_body add L bottom top_v"
    by (intro ext) (simp add: image_body_gpu_def image_body_def mutable_gpu_data_eq
        caffe_gpu_add_scalar_eq split: option.splits)
  have "sample_body add L bottom top_v =
          (\<lambda>n. for_loop [0..<max_labels_m L] (image_body add L bottom top_v n))"
    by (intro ext) (simp add: sample_body_def IMAGE)
  with b IMAGE show ?thesis
    by (simp add: Forward_gpu_def Forward_cpu_def mutable_gpu_data_eq gpu_data_def)
next
  case PIXEL
  then show ?thesis by (simp add: Forward_gpu_def)
qed

subsection \<open>Runs that abort\<close>

lemma for_loop_all_good:
  assumes "\<And>i s. i \<in> set js \<Longrightarrow> I s \<Longrightarrow> \<exists>s'. body i s = Inr s' \<and> I s'" and "I s"
  shows "\<exists>s'. for_loop js body s = Inr s' \<and> I s'"
  using assms
proof (induction js arbitrary: s)
  case Nil
  then show ?case by simp
next
  case (Cons j js)
  from Cons.prems(1)[of j s] Cons.prems(2) obtain s1 where b: "body j s = Inr s1" and "I s1"
    by auto
  moreover from Cons.IH[of s1] Cons.prems(1) \<open>I s1\<close>
  obtain s' where "for_loop js body s1 = Inr s'" "I s'" by auto
  ultimately show ?case by auto
qed

lemma for_loop_some_failure:
  assumes "\<And>i s. i \<in> set js \<Longrightarrow> I s \<Longrightarrow> good i \<Longrightarrow> \<exists>s'. body i s = Inr s' \<and> I s'"
    and "\<And>i s. i \<in> set js \<Longrightarrow> I s \<Longrightarrow> \<not> good i \<Longrightarrow> \<exists>e st. body i s = Inl (e, st) \<and> Q e"
    and "I s" and "\<exists>i\<in>set js. \<not> good i"
  shows "\<exists>e st. for_loop js body s = Inl (e, st) \<and> Q e"
  using assms
proof (induction js arbitrary: s)
  case Nil
  then show ?case by simp
next
  case (Cons j js)
  show ?case
  proof (cases "good j")
    case False
    with Cons.prems(2)[of j s] Cons.prems(3) obtain e st where "body j s = Inl (e, st)" "Q e"
      by auto
    then show ?thesis by auto
  next
    case True
    with Cons.prems(1)[of j s] Cons.prems(3) obtain s1 where b: "body j s = Inr s1" and i1: "I s1"
      by auto
    from True Cons.prems(4) have "\<exists>i\<in>set js. \<not> good i" by auto
    with Cons.IH[of s1] Cons.prems(1,2) i1
    obtain e st where "for_loop js body s1 = Inl (e, st)" "Q e" by auto
    with b show ?thesis by auto
  qed
qed

lemma for_loop_first_failure:
  assumes "\<And>i s. i \<in> set js1 \<Longrightarrow> I s \<Longrightarrow> \<exists>s'. body i s = Inr s' \<and> I s'"
    and "\<And>s. I s \<Longrightarrow> \<exists>st. body j s = Inl (e, st)"
    and "I s"
  shows "\<exists>st. for_loop (js1 @ j # js2) body s = Inl (e, st)"
  using assms
proof (induction js1 arbitrary: s)
  case Nil
  from Nil(2)[OF Nil(3)] show ?case by auto
next
  case (Cons i js1)
  from Cons.prems(1)[of i s] Cons.prems(3) obtain s1 where b: "body i s = Inr s1" and i1: "I s1"
    by auto
  from Cons.IH[of s1] Cons.prems(1,2) i1
  obtain st where "for_loop (js1 @ j # js2) body s1 = Inl (e, st)" by auto
  with b show ?case by auto
qed

lemma upt_split: "j < n \<Longrightarrow> [0..<n] = [0..<j] @ j # [Suc j..<n]"
  by (metis less_imp_le_nat upt_add_eq_append upt_conv_Cons le_add_diff_inverse plus_nat.add_0 zero_le)

lemma image_body_outcome:
  assumes "t \<noteq> l" "image_label (s l) n j = Some label"
  shows "(label \<in> ignore_label_m L \<or> (0 \<le> label \<and> label < int (channels_m L)) \<longrightarrow>
            (\<exists>s'. image_body add L [a, l] [t] n j s = Inr s' \<and> s' l = s l)) \<and>
         (label \<notin> ignore_label_m L \<and> \<not> (0 \<le> label \<and> label < int (channels_m L)) \<longrightarrow>
            image_body add L [a, l] [t] n j s = Inl (Unexpected_label label, s))"
  using assms
  by (auto simp: image_body_def image_label_def mutable_cpu_data_def Let_def)

lemma pixel_body_outcome:
  assumes "t \<noteq> l" "static_cast_int (cpu_data (s l) ! (ld + j)) = Some label"
  shows "(label \<in> ignore_label_m L \<or> label = 0 \<or> (0 < label \<and> label < int (channels_m L)) \<longrightarrow>
            (\<exists>s'. pixel_body add L [a, l] [t] ld td sd j s = Inr s' \<and> s' l = s l)) \<and>
         (label \<notin> ignore_label_m L \<and> \<not> (label = 0 \<or> (0 < label \<and> label < int (channels_m L))) \<longrightarrow>
            pixel_body add L [a, l] [t] ld td sd j s = Inl (Unexpected_label label, s))"
  using assms
  by (auto simp: pixel_body_def mutable_cpu_data_def Let_def)

lemma sample_body_as_loop:
  "\<exists>body. sample_body add L [a, l] [t] n s = for_loop [0..<entries L] body s \<and>
     (\<forall>j s' label. s' l = s l \<longrightarrow> t \<noteq> l \<longrightarrow> label_entry L (s l) n j = Some label \<longrightarrow>
        (label \<in> ignore_label_m L \<or> valid_label L label \<longrightarrow>
            (\<exists>s''. body j s' = Inr s'' \<and> s'' l = s l)) \<and>
        (label \<notin> ignore_label_m L \<and> \<not> valid_label L label \<longrightarrow>
            body j s' = Inl (Unexpected_label label, s')))"
proof (cases "label_type (bias_channel_param L)")
  case IMAGE
  show ?thesis
  proof (intro exI[of _ "image_body add L [a, l] [t] n"] conjI allI impI)
    show "sample_body add L [a, l] [t] n s = for_loop [0..<entries L] (image_body add L [a, l] [t] n) s"
      using IMAGE by (simp add: sample_body_def entries_def)
  next
    fix j s' label
    assume "s' l = s l" "t \<noteq> l" "label_entry L (s l) n j = Some label"
      "label \<in> ignore_label_m L \<or> valid_label L label"
    then show "\<exists>s''. image_body add L [a, l] [t] n j s' = Inr s'' \<and> s'' l = s l"
      using image_body_outcome[where add = add and t = t and l = l and s = s' and n = n and j = j
          and label = label and L = L and a = a] IMAGE
      by (simp add: label_entry_def valid_label_def)
  next
    fix j s' label
    assume "s' l = s l" "t \<noteq> l" "label_entry L (s l) n j = Some label"
      "label \<notin> ignore_label_m L \<and> \<not> valid_label L label"
    then show "image_body add L [a, l] [t] n j s' = Inl (Unexpected_label label, s')"
      using image_body_outcome[where add = add and t = t and l = l and s = s' and n = n and j = j
          and label = label and L = L and a = a] IMAGE
      by (simp add: label_entry_def valid_label_def)
  qed
next
  case PIXEL
  let ?ld = "Blob_offset (s l) n 0 0 0" and ?td = "Blob_offset (s t) n 0 0 0"
  let ?sd = "height_m L * width_m L"
  show ?thesis
  proof (intro exI[of _ "pixel_body add L [a, l] [t] ?ld ?td ?sd"] conjI allI impI)
    show "sample_body add L [a, l] [t] n s =
            for_loop [0..<entries L] (pixel_body add L [a, l] [t] ?ld ?td ?sd) s"
      using PIXEL by (simp add: sample_body_def entries_def Let_def)
  next
    fix j s' label
    assume "s' l = s l" "t \<noteq> l" "label_entry L (s l) n j = Some label"
      "label \<in> ignore_label_m L \<or> valid_label L label"
    then show "\<exists>s''. pixel_body add L [a, l] [t] ?ld ?td ?sd j s' = Inr s'' \<and> s'' l = s l"
      using pixel_body_outcome[where add = add and t = t and l = l and s = s' and ld = ?ld and j = j
          and label = label and L = L and a = a and td = ?td and sd = ?sd] PIXEL
      by (simp add: label_entry_def valid_label_def pixel_label_def)
  next
    fix j s' label
    assume "s' l = s l" "t \<noteq> l" "label_entry L (s l) n j = Some label"
      "label \<notin> ignore_label_m L \<and> \<not> valid_label L label"
    then show "pixel_body add L [a, l] [t] ?ld ?td ?sd j s' = Inl (Unexpected_label label, s')"
      using pixel_body_outcome[where add = add and t = t and l = l and s = s' and ld = ?ld and j = j
          and label = label and L = L and a = a and td = ?td and sd = ?sd] PIXEL
      by (simp add: label_entry_def valid_label_def pixel_label_def)
  qed
qed

lemma sample_body_good:
  assumes sep: "t \<noteq> l"
    and ok: "\<forall>j<entries L. accepted L (label_entry L (s l) n j)"
  shows "\<exists>s'. sample_body add L [a, l] [t] n s = Inr s' \<and> s' l = s l"
proof -
  from sample_body_as_loop[where add = add and L = L and a = a and l = l and t = t and n = n and s = s] obtain body where
    eq: "sample_body add L [a, l] [t] n s = for_loop [0..<entries L] body s"
    and st: "\<And>j s' label. s' l = s l \<Longrightarrow> label_entry L (s l) n j = Some label \<Longrightarrow>
              label \<in> ignore_label_m L \<or> valid_label L label \<Longrightarrow>
              \<exists>s''. body j s' = Inr s'' \<and> s'' l = s l"
    using sep by blast
  have "\<exists>s'. for_loop [0..<entries L] body s = Inr s' \<and> s' l = s l"
  proof (rule for_loop_all_good[where I = "\<lambda>s'. s' l = s l"])
    fix j s' assume "j \<in> set [0..<entries L]" and sl: "s' l = s l"
    then have "accepted L (label_entry L (s l) n j)" using ok by simp
    then obtain label where l1: "label_entry L (s l) n j = Some label"
      and l2: "label \<in> ignore_label_m L \<or> valid_label L label"
      by (auto simp: accepted_def split: option.splits)
    show "\<exists>s''. body j s' = Inr s'' \<and> s'' l = s l"
      using st[of s' j label] sl l1 l2 by blast
  qed simp
  with eq show ?thesis by simp
qed

lemma sample_body_some_bad:
  assumes sep: "t \<noteq> l"
    and df: "\<forall>j<entries L. label_entry L (s l) n j \<noteq> None"
    and bad: "\<exists>j<entries L. \<not> accepted L (label_entry L (s l) n j)"
  shows "\<exists>e st. sample_body add L [a, l] [t] n s = Inl (e, st) \<and>
           (\<exists>label. e = Unexpected_label label \<and> label \<notin> ignore_label_m L \<and> \<not> valid_label L label)"
proof -
  from sample_body_as_loop[where add = add and L = L and a = a and l = l and t = t and n = n and s = s] obtain body where
    eq: "sample_body add L [a, l] [t] n s = for_loop [0..<entries L] body s"
    and st: "\<And>j s' label. s' l = s l \<Longrightarrow> label_entry L (s l) n j = Some label \<Longrightarrow>
              label \<in> ignore_label_m L \<or> valid_label L label \<Longrightarrow>
              \<exists>s''. body j s' = Inr s'' \<and> s'' l = s l"
    and sb: "\<And>j s' label. s' l = s l \<Longrightarrow> label_entry L (s l) n j = Some label \<Longrightarrow>
              label \<notin> ignore_label_m L \<and> \<not> valid_label L label \<Longrightarrow>
              body j s' = Inl (Unexpected_label label, s')"
    using sep by blast
  have "\<exists>e st. for_loop [0..<entries L] body s = Inl (e, st) \<and>
           (\<exists>label. e = Unexpected_label label \<and> label \<notin> ignore_label_m L \<and> \<not> valid_label L label)"
  proof (rule for_loop_some_failure[where I = "\<lambda>s'. s' l = s l"
        and good = "\<lambda>j. accepted L (label_entry L (s l) n j)"])
    fix j s' assume "j \<in> set [0..<entries L]" and sl: "s' l = s l"
      and "accepted L (label_entry L (s l) n j)"
    then obtain label where l1: "label_entry L (s l) n j = Some label"
      and l2: "label \<in> ignore_label_m L \<or> valid_label L label"
      by (auto simp: accepted_def split: option.splits)
    show "\<exists>s''. body j s' = Inr s'' \<and> s'' l = s l"
      using st[of s' j label] sl l1 l2 by blast
  next
    fix j s' assume j: "j \<in> set [0..<entries L]" and sl: "s' l = s l"
      and na: "\<not> accepted L (label_entry L (s l) n j)"
    from j df obtain label where lab: "label_entry L (s l) n j = Some label" by auto
    with na have b: "label \<notin> ignore_label_m L \<and> \<not> valid_label L label"
      by (simp add: accepted_def)
    from sb[of s' j label] sl lab b
    show "\<exists>e st. body j s' = Inl (e, st) \<and>
            (\<exists>label. e = Unexpected_label label \<and> label \<notin> ignore_label_m L \<and> \<not> valid_label L label)"
      by blast
  next
    show "\<exists>j\<in>set [0..<entries L]. \<not> accepted L (label_entry L (s l) n j)"
      using bad by auto
  qed simp
  with eq show ?thesis by simp
qed

lemma sample_body_first_bad:
  assumes sep: "t \<noteq> l" and j: "j < entries L"
    and before: "\<forall>j'<j. accepted L (label_entry L (s l) n j')"
    and lab: "label_entry L (s l) n j = Some label"
    and bad: "label \<notin> ignore_label_m L" "\<not> valid_label L label"
  shows "\<exists>st. sample_body add L [a, l] [t] n s = Inl (Unexpected_label label, st)"
proof -
  from sample_body_as_loop[where add = add and L = L and a = a and l = l and t = t and n = n and s = s] obtain body where
    eq: "sample_body add L [a, l] [t] n s = for_loop [0..<entries L] body s"
    and st: "\<And>j s' label. s' l = s l \<Longrightarrow> label_entry L (s l) n j = Some label \<Longrightarrow>
              label \<in> ignore_label_m L \<or> valid_label L label \<Longrightarrow>
              \<exists>s''. body j s' = Inr s'' \<and> s'' l = s l"
    and sb: "\<And>j s' label. s' l = s l \<Longrightarrow> label_entry L (s l) n j = Some label \<Longrightarrow>
              label \<notin> ignore_label_m L \<and> \<not> valid_label L label \<Longrightarrow>
              body j s' = Inl (Unexpected_label label, s')"
    using sep by blast
  have "\<exists>st. for_loop ([0..<j] @ j # [Suc j..<entries L]) body s = Inl (Unexpected_label label, st)"
  proof (rule for_loop_first_failure[where I = "\<lambda>s'. s' l = s l"])
    fix j' s' assume "j' \<in> set [0..<j]" and sl: "s' l = s l"
    then have "accepted L (label_entry L (s l) n j')" using before by simp
    then obtain label' where l1: "label_entry L (s l) n j' = Some label'"
      and l2: "label' \<in> ignore_label_m L \<or> valid_label L label'"
      by (auto simp: accepted_def split: option.splits)
    show "\<exists>s''. body j' s' = Inr s'' \<and> s'' l = s l"
      using st[of s' j' label'] sl l1 l2 by blast
  next
    fix s' assume sl: "s' l = s l"
    from sb[of s' j label] sl lab bad
    show "\<exists>st. body j s' = Inl (Unexpected_label label, st)" by blast
  qed simp
  with eq upt_split[OF j] show ?thesis by simp
qed

lemma Forward_cpu_some_bad:
  assumes sep: "t \<noteq> l"
    and df: "\<forall>n<num_m L. \<forall>j<entries L. label_entry L (s l) n j \<noteq> None"
    and bad: "\<exists>n<num_m L. \<exists>j<entries L. \<not> accepted L (label_entry L (s l) n j)"
  shows "\<exists>e st. Forward_cpu add L [a, l] [t] s = Inl (e, st) \<and>
           (\<exists>label. e = Unexpected_label label \<and> label \<notin> ignore_label_m L \<and> \<not> valid_label L label)"
proof -
  let ?s1 = "mutable_cpu_data t (caffe_copy (Blob_count (s a)) (cpu_data (s a))) s"
  have "\<exists>e st. for_loop [0..<num_m L] (sample_body add L [a, l] [t]) ?s1 = Inl (e, st) \<and>
           (\<exists>label. e = Unexpected_label label \<and> label \<notin> ignore_label_m L \<and> \<not> valid_label L label)"
  proof (rule for_loop_some_failure[where I = "\<lambda>s'. s' l = s l"
        and good = "\<lambda>n. \<forall>j<entries L. accepted L (label_entry L (s l) n j)"])
    fix n s' assume "n \<in> set [0..<num_m L]" and sl: "s' l = s l"
      and "\<forall>j<entries L. accepted L (label_entry L (s l) n j)"
    then show "\<exists>s''. sample_body add L [a, l] [t] n s' = Inr s'' \<and> s'' l = s l"
      using sample_body_good[where add = add and t = t and l = l and L = L and s = s' and n = n and a = a] sep by simp
  next
    fix n s' assume "n \<in> set [0..<num_m L]" and sl: "s' l = s l"
      and "\<not> (\<forall>j<entries L. accepted L (label_entry L (s l) n j))"
    then show "\<exists>e st. sample_body add L [a, l] [t] n s' = Inl (e, st) \<and>
            (\<exists>label. e = Unexpected_label label \<and> label \<notin> ignore_label_m L \<and> \<not> valid_label L label)"
      using sample_body_some_bad[where add = add and t = t and l = l and L = L and s = s' and n = n and a = a] sep df by simp
  next
    show "?s1 l = s l" using sep by (simp add: mutable_cpu_data_def)
  next
    show "\<exists>n\<in>set [0..<num_m L]. \<not> (\<forall>j<entries L. accepted L (label_entry L (s l) n j))"
      using bad by auto
  qed
  then show ?thesis by (simp add: Forward_cpu_def)
qed

lemma Forward_cpu_first_bad:
  assumes sep: "t \<noteq> l" and n: "n < num_m L" and j: "j < entries L"
    and before: "\<forall>n'<num_m L. \<forall>j'<entries L. n' < n \<or> n' = n \<and> j' < j \<longrightarrow>
                   accepted L (label_entry L (s l) n' j')"
    and lab: "label_entry L (s l) n j = Some label"
    and bad: "label \<notin> ignore_label_m L" "\<not> valid_label L label"
  shows "\<exists>st. Forward_cpu add L [a, l] [t] s = Inl (Unexpected_label label, st)"
proof -
  let ?s1 = "mutable_cpu_data t (caffe_copy (Blob_count (s a)) (cpu_data (s a))) s"
  have "\<exists>st. for_loop ([0..<n] @ n # [Suc n..<num_m L]) (sample_body add L [a, l] [t]) ?s1 =
               Inl (Unexpected_label label, st)"
  proof (rule for_loop_first_failure[where I = "\<lambda>s'. s' l = s l"])
    fix n' s' assume n': "n' \<in> set [0..<n]" and sl: "s' l = s l"
    then have "\<forall>j'<entries L. accepted L (label_entry L (s' l) n' j')"
      using before n by simp
    then show "\<exists>s''. sample_body add L [a, l] [t] n' s' = Inr s'' \<and> s'' l = s l"
      using sample_body_good[where add = add and t = t and l = l and L = L and s = s' and n = n' and a = a] sep sl by simp
  next
    fix s' assume sl: "s' l = s l"
    have "\<forall>j'<j. accepted L (label_entry L (s' l) n j')"
      using before n j sl by simp
    then show "\<exists>st. sample_body add L [a, l] [t] n s' = Inl (Unexpected_label label, st)"
      using sample_body_first_bad[where add = add and t = t and l = l and j = j and L = L and s = s'
          and n = n and label = label and a = a] sep j lab bad sl by simp
  next
    show "?s1 l = s l" using sep by (simp add: mutable_cpu_data_def)
  qed
  with upt_split[OF n] show ?thesis by (simp add: Forward_cpu_def)
qed

subsection \<open>The conversion of a label\<close>

lemma ceiling_minus_one: "\<lceil>- 1 :: real\<rceil> = - 1"
  using ceiling_of_int[of "- 1", where 'a = real] by simp

lemma cast_examples:
  "static_cast_int 2 = Some 2" "static_cast_int 0 = Some 0" "static_cast_int (- 1) = Some (- 1)"
  "static_cast_int (27 / 10) = Some 2" "static_cast_int (- (1 / 2)) = Some 0"
  by (simp_all add: static_cast_int_def ceiling_minus_one ceiling_eq_iff)


subsection \<open>The example state\<close>

lemmas ex_defs = ex_param_def ex_layer_def ex_activation_def ex_image_labels_def
  ex_pixel_labels_def ex_top_def ex_store_def ex_ready_def ex_reshaped_def
  ex_large_activation_def ex_large_store_def ex_large_reshaped_def ex_in_place_def
  ex_large_pixel_store_def ex_large_pixel_reshaped_def

lemma ex_setup: "LayerSetUp (ex_layer ty) [0, 1] [2] = Inr (ex_ready ty)"
  by (simp add: ex_defs LayerSetUp_def)



lemma ex_reshape_large_pixel:
  "Reshape (ex_ready PIXEL) [0, 1] [2] ex_large_pixel_store =
     Inr (fst ex_large_pixel_reshaped, snd ex_large_pixel_reshaped)"
  by (simp add: ex_defs LayerSetUp_def Reshape_def)


lemma ex_reshape_pixel:
  "Reshape (ex_ready PIXEL) [0, 1] [2] (ex_store (ex_pixel_labels xs)) =
     Inr (fst (ex_reshaped PIXEL (ex_pixel_labels xs)), snd (ex_reshaped PIXEL (ex_pixel_labels xs)))"
  by (simp add: ex_defs LayerSetUp_def Reshape_def)

lemma ex_layer_image:
  "fst (ex_reshaped IMAGE (ex_image_labels xs)) =
     \<lparr>bias_channel_param = ex_param IMAGE, bg_bias_m = 1, fg_bias_m = 2,
      ignore_label_m = {255, - 1}, num_m = 1, channels_m = 3, height_m = 1, width_m = 2,
      max_labels_m = 3\<rparr>"
  by (simp add: ex_defs LayerSetUp_def Reshape_def)

lemma ex_layer_pixel:
  "fst (ex_reshaped PIXEL (ex_pixel_labels xs)) =
     \<lparr>bias_channel_param = ex_param PIXEL, bg_bias_m = 1, fg_bias_m = 2,
      ignore_label_m = {255, - 1}, num_m = 1, channels_m = 3, height_m = 1, width_m = 2,
      max_labels_m = 1\<rparr>"
  by (simp add: ex_defs LayerSetUp_def Reshape_def)

lemma ex_store_image:
  "snd (ex_reshaped IMAGE (ex_image_labels xs)) =
     (ex_store (ex_image_labels xs))
       (2 := \<lparr>num = 1, channels = 3, height = 1, width = 2,
               cpu_data = [0, 0, 0, 0, 0, 0], cpu_diff = [0, 0, 0, 0, 0, 0]\<rparr>)"
  by (simp add: ex_defs LayerSetUp_def Reshape_def Blob_Reshape_def eval_nat_numeral)

lemma ex_store_pixel:
  "snd (ex_reshaped PIXEL (ex_pixel_labels xs)) =
     (ex_store (ex_pixel_labels xs))
       (2 := \<lparr>num = 1, channels = 3, height = 1, width = 2,
               cpu_data = [0, 0, 0, 0, 0, 0], cpu_diff = [0, 0, 0, 0, 0, 0]\<rparr>)"
  by (simp add: ex_defs LayerSetUp_def Reshape_def Blob_Reshape_def eval_nat_numeral)

lemma ex_layer_large:
  "fst ex_large_reshaped =
     \<lparr>bias_channel_param = ex_param IMAGE, bg_bias_m = 1, fg_bias_m = 2,
      ignore_label_m = {255, - 1}, num_m = 1, channels_m = 3, height_m = 1, width_m = 2,
      max_labels_m = 3\<rparr>"
  by (simp add: ex_defs LayerSetUp_def Reshape_def)


section \<open>The claims\<close>

text \<open>
  In the statements below \<open>a\<close>, \<open>l\<close> and \<open>t\<close> are the addresses of the activation
  blob \<open>bottom[0]\<close>, of the label blob \<open>bottom[1]\<close> and of the output blob \<open>top[0]\<close>,
  and \<open>add\<close> is the addition of the instance of the template: the theorems hold for every
  \<open>add\<close>, so for float and for double, and the concrete runs use \<open>float_add\<close>.
\<close>




text \<open>
  Claim C2. Pixel labels. With the layer set up and reshaped as in C1, and every label
  in the ignore set or in [0, C): Forward returns, and for the label read at pixel
  (h, w) of sample n, nothing is added at that pixel when the label is ignored;
  otherwise bg\_bias is added to channel 0 at that pixel and, when the label is a
  foreground channel (0 < label), fg\_bias is added to channel label at that pixel;
  every other channel keeps the activation's value there. Each element receives at most
  one addition, and it is the addition of \<open>Dtype\<close>: the output is
  \<open>add activation bias\<close>, the rounded sum.
\<close>

theorem C2_pixel_forward:
  assumes fresh: "ignore_label_m L0 = {}"
    and lsu: "LayerSetUp L0 bottom top_v = Inr L1"
    and mode: "label_type (bias_channel_param L0) = PIXEL"
    and reshape: "Reshape L1 [a, l] [t] s0 = Inr (L, s)"
    and sep: "t \<noteq> l"
    and buf: "Blob_count (s0 a) \<le> length (cpu_data (s0 a))"
    and labels: "\<forall>n<num (s0 a). \<forall>h<height (s0 a). \<forall>w<width (s0 a). \<exists>label.
                   label_at (s0 l) n 0 h w = Some label \<and>
                   (label \<in> ignore_label_set (bias_channel_param L0) \<or>
                    0 \<le> label \<and> label < int (channels (s0 a)))"
    and idx: "n < num (s0 a)" "c < channels (s0 a)" "h < height (s0 a)" "w < width (s0 a)"
    and lab: "label_at (s0 l) n 0 h w = Some label"
  shows "\<exists>s'. Forward_cpu add L [a, l] [t] s = Inr s' \<and>
           Blob_offset (s' t) n c h w = Blob_offset (s0 a) n c h w \<and>
           cpu_data (s' t) ! Blob_offset (s' t) n c h w =
             (if label \<in> ignore_label_set (bias_channel_param L0)
              then cpu_data (s0 a) ! Blob_offset (s0 a) n c h w
              else if c = 0
              then add (cpu_data (s0 a) ! Blob_offset (s0 a) n c h w) (bg_bias (bias_channel_param L0))
              else if 0 < label \<and> label = int c
              then add (cpu_data (s0 a) ! Blob_offset (s0 a) n c h w) (fg_bias (bias_channel_param L0))
              else cpu_data (s0 a) ! Blob_offset (s0 a) n c h w)"
  using fresh lsu mode reshape sep buf labels idx lab by (rule pixel_forward_pipeline)

text \<open>
  At the pixel labels [2, 0], pixel 0 of the example gets fg\_bias in channel 2
  (50 becomes 52) and bg\_bias in channel 0 (10 becomes 11). With 33554432 in channel 2
  the single-precision addition of fg\_bias = 2 returns 33554432: the exact sum 33554434
  is not a single-precision value.
\<close>

theorem C2_witness:
  "(\<exists>s'. Forward_cpu float_add (fst (ex_reshaped PIXEL (ex_pixel_labels [2, 0]))) [0, 1] [2]
           (snd (ex_reshaped PIXEL (ex_pixel_labels [2, 0]))) = Inr s' \<and>
        cpu_data (s' 2) ! Blob_offset (s' 2) 0 2 0 0 = 52) \<and>
   (\<exists>s'. Forward_cpu float_add (fst (ex_reshaped PIXEL (ex_pixel_labels [2, 0]))) [0, 1] [2]
           (snd (ex_reshaped PIXEL (ex_pixel_labels [2, 0]))) = Inr s' \<and>
        cpu_data (s' 2) ! Blob_offset (s' 2) 0 0 0 0 = 11) \<and>
   (\<exists>s'. Forward_cpu float_add (fst ex_large_pixel_reshaped) [0, 1] [2]
           (snd ex_large_pixel_reshaped) = Inr s' \<and>
        cpu_data (s' 2) ! Blob_offset (s' 2) 0 2 0 0 = 33554432)"
proof -
  let ?lab = "ex_pixel_labels [2, 0]"
  have h1: "ignore_label_m (ex_layer PIXEL) = {}" by (simp add: ex_defs)
  have h3: "label_type (bias_channel_param (ex_layer PIXEL)) = PIXEL" by (simp add: ex_defs)
  have h5: "(2::nat) \<noteq> 1" by simp
  have h6: "Blob_count (ex_store ?lab 0) \<le> length (cpu_data (ex_store ?lab 0))"
    by (simp add: ex_defs Blob_count_def)
  have h7: "\<forall>n<num (ex_store ?lab 0). \<forall>h<height (ex_store ?lab 0). \<forall>w<width (ex_store ?lab 0).
              \<exists>label. label_at (ex_store ?lab 1) n 0 h w = Some label \<and>
                (label \<in> ignore_label_set (bias_channel_param (ex_layer PIXEL)) \<or>
                 0 \<le> label \<and> label < int (channels (ex_store ?lab 0)))"
    by (simp add: ex_defs label_at_def Blob_offset_def cast_examples ignore_label_set_def
        All_less_Suc eval_nat_numeral)
  have ix: "0 < num (ex_store ?lab 0)" "2 < channels (ex_store ?lab 0)"
    "0 < channels (ex_store ?lab 0)"
    "0 < height (ex_store ?lab 0)" "0 < width (ex_store ?lab 0)"
    by (simp_all add: ex_defs)
  have lb: "label_at (ex_store ?lab 1) 0 0 0 0 = Some 2"
    by (simp add: ex_defs label_at_def Blob_offset_def cast_examples)
  have ni: "2 \<notin> ignore_label_set (bias_channel_param (ex_layer PIXEL))"
    by (simp add: ex_defs ignore_label_set_def)
  have bs: "bg_bias (bias_channel_param (ex_layer PIXEL)) = 1"
    "fg_bias (bias_channel_param (ex_layer PIXEL)) = 2"
    by (simp_all add: ex_defs)
  have v: "cpu_data (ex_store ?lab 0) ! Blob_offset (ex_store ?lab 0) 0 2 0 0 = 50"
    "cpu_data (ex_store ?lab 0) ! Blob_offset (ex_store ?lab 0) 0 0 0 0 = 10"
    by (simp_all add: ex_defs Blob_offset_def)
  note a = C2_pixel_forward[where add = float_add,
      OF h1 ex_setup h3 ex_reshape_pixel h5 h6 h7 ix(1) ix(2) ix(4) ix(5) lb]
  note b = C2_pixel_forward[where add = float_add,
      OF h1 ex_setup h3 ex_reshape_pixel h5 h6 h7 ix(1) ix(3) ix(4) ix(5) lb]
  have g6: "Blob_count (ex_large_pixel_store 0) \<le> length (cpu_data (ex_large_pixel_store 0))"
    by (simp add: ex_defs Blob_count_def)
  have g7: "\<forall>n<num (ex_large_pixel_store 0). \<forall>h<height (ex_large_pixel_store 0).
              \<forall>w<width (ex_large_pixel_store 0).
              \<exists>label. label_at (ex_large_pixel_store 1) n 0 h w = Some label \<and>
                (label \<in> ignore_label_set (bias_channel_param (ex_layer PIXEL)) \<or>
                 0 \<le> label \<and> label < int (channels (ex_large_pixel_store 0)))"
    by (simp add: ex_defs label_at_def Blob_offset_def cast_examples ignore_label_set_def
        All_less_Suc eval_nat_numeral)
  have gx: "0 < num (ex_large_pixel_store 0)" "2 < channels (ex_large_pixel_store 0)"
    "0 < height (ex_large_pixel_store 0)" "0 < width (ex_large_pixel_store 0)"
    by (simp_all add: ex_defs)
  have gl: "label_at (ex_large_pixel_store 1) 0 0 0 0 = Some 2"
    by (simp add: ex_defs label_at_def Blob_offset_def cast_examples)
  have gv: "cpu_data (ex_large_pixel_store 0) ! Blob_offset (ex_large_pixel_store 0) 0 2 0 0
              = 33554432"
    by (simp add: ex_defs Blob_offset_def)
  note c = C2_pixel_forward[where add = float_add,
      OF h1 ex_setup h3 ex_reshape_large_pixel h5 g6 g7 gx gl]
  have 1: "\<exists>s'. Forward_cpu float_add (fst (ex_reshaped PIXEL ?lab)) [0, 1] [2]
                (snd (ex_reshaped PIXEL ?lab)) = Inr s' \<and>
             cpu_data (s' 2) ! Blob_offset (s' 2) 0 2 0 0 = 52"
    using a unfolding v bs using ni by (auto simp: float_add_small)
  have 2: "\<exists>s'. Forward_cpu float_add (fst (ex_reshaped PIXEL ?lab)) [0, 1] [2]
                (snd (ex_reshaped PIXEL ?lab)) = Inr s' \<and>
             cpu_data (s' 2) ! Blob_offset (s' 2) 0 0 0 0 = 11"
    using b unfolding v bs using ni by (auto simp: float_add_small)
  have 3: "\<exists>s'. Forward_cpu float_add (fst ex_large_pixel_reshaped) [0, 1] [2]
                (snd ex_large_pixel_reshaped) = Inr s' \<and>
             cpu_data (s' 2) ! Blob_offset (s' 2) 0 2 0 0 = 33554432"
    using c unfolding gv bs using ni by (auto simp: float_add_rounds)
  from 1 2 3 show ?thesis by blast
qed

text \<open>
  Claim C3. A label that is not in the ignore set and fails the range test of its mode
  (image labels: outside [0, C); pixel labels: neither 0 nor in (0, C)) aborts Forward with
  the fatal "Unexpected label". When no conversion is undefined, a run over a label blob
  holding such an entry never returns: it aborts on a label of that kind. When all entries
  before it in loop order are accepted, the run aborts on this very entry, with its label
  in the message.
\<close>

theorem C3_invalid_label_fatal:
  assumes sep: "t \<noteq> l" and n: "n < num_m L" and j: "j < entries L"
    and lab: "label_entry L (s l) n j = Some label"
    and bad: "label \<notin> ignore_label_m L" "\<not> valid_label L label"
  shows "((\<forall>n'<num_m L. \<forall>j'<entries L. label_entry L (s l) n' j' \<noteq> None) \<longrightarrow>
            (\<exists>label' st. Forward_cpu add L [a, l] [t] s = Inl (Unexpected_label label', st) \<and>
               label' \<notin> ignore_label_m L \<and> \<not> valid_label L label')) \<and>
         ((\<forall>n'<num_m L. \<forall>j'<entries L. n' < n \<or> n' = n \<and> j' < j \<longrightarrow>
              accepted L (label_entry L (s l) n' j')) \<longrightarrow>
            (\<exists>st. Forward_cpu add L [a, l] [t] s = Inl (Unexpected_label label, st)))"
proof (intro conjI impI)
  assume df: "\<forall>n'<num_m L. \<forall>j'<entries L. label_entry L (s l) n' j' \<noteq> None"
  have "\<not> accepted L (label_entry L (s l) n j)" using lab bad by (simp add: accepted_def)
  with n j have ex: "\<exists>n<num_m L. \<exists>j<entries L. \<not> accepted L (label_entry L (s l) n j)"
    by blast
  from Forward_cpu_some_bad[where add = add and t = t and l = l and L = L and s = s and a = a] sep df ex
  show "\<exists>label' st. Forward_cpu add L [a, l] [t] s = Inl (Unexpected_label label', st) \<and>
               label' \<notin> ignore_label_m L \<and> \<not> valid_label L label'" by blast
next
  assume "\<forall>n'<num_m L. \<forall>j'<entries L. n' < n \<or> n' = n \<and> j' < j \<longrightarrow>
              accepted L (label_entry L (s l) n' j')"
  with Forward_cpu_first_bad[where add = add and t = t and l = l and n = n and L = L and j = j
      and s = s and label = label and a = a] sep n j lab bad
  show "\<exists>st. Forward_cpu add L [a, l] [t] s = Inl (Unexpected_label label, st)" by blast
qed

text \<open>
  Image labels [2, 7, -1] with three channels abort on the label 7, and pixel labels
  [0, -3] on the label -3.
\<close>

theorem C3_witness:
  "(\<exists>st. Forward_cpu float_add (fst (ex_reshaped IMAGE (ex_image_labels [2, 7, - 1]))) [0, 1] [2]
           (snd (ex_reshaped IMAGE (ex_image_labels [2, 7, - 1]))) = Inl (Unexpected_label 7, st)) \<and>
   (\<exists>st. Forward_cpu float_add (fst (ex_reshaped PIXEL (ex_pixel_labels [0, - 3]))) [0, 1] [2]
           (snd (ex_reshaped PIXEL (ex_pixel_labels [0, - 3]))) = Inl (Unexpected_label (- 3), st))"
proof -
  let ?li = "ex_image_labels [2, 7, - 1]" and ?lp = "ex_pixel_labels [0, - 3]"
  let ?Li = "fst (ex_reshaped IMAGE ?li)" and ?si = "snd (ex_reshaped IMAGE ?li)"
  let ?Lp = "fst (ex_reshaped PIXEL ?lp)" and ?sp = "snd (ex_reshaped PIXEL ?lp)"
  have c7: "static_cast_int 7 = Some 7" "static_cast_int (- 3) = Some (- 3)"
    by (simp_all add: static_cast_int_def)
  have i: "(2::nat) \<noteq> 1" "0 < num_m ?Li" "1 < entries ?Li"
    "label_entry ?Li (?si 1) 0 1 = Some 7" "7 \<notin> ignore_label_m ?Li" "\<not> valid_label ?Li 7"
    unfolding ex_layer_image ex_store_image
    by (simp_all add: entries_def label_entry_def valid_label_def
        image_label_def Blob_offset_def c7 ex_param_def ex_store_def ex_image_labels_def)
  have ib: "\<forall>n'<num_m ?Li. \<forall>j'<entries ?Li. n' < 0 \<or> n' = 0 \<and> j' < 1 \<longrightarrow>
              accepted ?Li (label_entry ?Li (?si 1) n' j')"
    unfolding ex_layer_image ex_store_image
    by (simp add: entries_def label_entry_def valid_label_def
        accepted_def image_label_def Blob_offset_def cast_examples ex_param_def ex_store_def
        ex_image_labels_def)
  have p: "(2::nat) \<noteq> 1" "0 < num_m ?Lp" "1 < entries ?Lp"
    "label_entry ?Lp (?sp 1) 0 1 = Some (- 3)" "- 3 \<notin> ignore_label_m ?Lp" "\<not> valid_label ?Lp (- 3)"
    unfolding ex_layer_pixel ex_store_pixel
    by (simp_all add: entries_def label_entry_def valid_label_def
        pixel_label_def Blob_offset_def c7 ex_param_def ex_store_def ex_pixel_labels_def)
  have pb: "\<forall>n'<num_m ?Lp. \<forall>j'<entries ?Lp. n' < 0 \<or> n' = 0 \<and> j' < 1 \<longrightarrow>
              accepted ?Lp (label_entry ?Lp (?sp 1) n' j')"
    unfolding ex_layer_pixel ex_store_pixel
    by (simp add: entries_def label_entry_def valid_label_def
        accepted_def pixel_label_def Blob_offset_def cast_examples ex_param_def ex_store_def
        ex_pixel_labels_def)
  from C3_invalid_label_fatal[where add = float_add and t = 2 and l = 1 and n = 0 and j = 1 and L = ?Li
      and s = ?si and label = 7 and a = 0] i ib
  have 1: "\<exists>st. Forward_cpu float_add ?Li [0, 1] [2] ?si = Inl (Unexpected_label 7, st)" by blast
  from C3_invalid_label_fatal[where add = float_add and t = 2 and l = 1 and n = 0 and j = 1 and L = ?Lp
      and s = ?sp and label = "- 3" and a = 0] p pb
  have 2: "\<exists>st. Forward_cpu float_add ?Lp [0, 1] [2] ?sp = Inl (Unexpected_label (- 3), st)" by blast
  from 1 2 show ?thesis by blast
qed

text \<open>
  Claim C4. After a Reshape that passed its checks the output blob has the shape of the
  activation blob, and it still has it in the state Forward ends in, on the host and the
  device path, whatever the labels are (also when the run aborts on a label).
\<close>

theorem C4_output_shape:
  assumes "Reshape L0 [a, l] [t] s0 = Inr (L, s)"
  shows "Blob_shape (s t) = Blob_shape (s0 a) \<and>
         Blob_shape (state_of (Forward_cpu add L [a, l] [t] s) t) = Blob_shape (s0 a) \<and>
         Blob_shape (state_of (Forward_gpu add L [a, l] [t] s) t) = Blob_shape (s0 a)"
proof -
  note rs = Reshape_Inr[OF assms]
  have 1: "Blob_shape (s t) = Blob_shape (s0 a)"
    by (simp add: rs(2) Blob_shape_def Blob_Reshape_def)
  obtain D where "state_of (Forward_cpu add L [a, l] [t] s) = set_data t D s"
    using Forward_cpu_writes_top[where add = add and L = L and bottom = "[a, l]" and top_v = "[t]" and s = s] by auto
  then have 2: "Blob_shape (state_of (Forward_cpu add L [a, l] [t] s) t) = Blob_shape (s t)"
    by (simp add: set_data_apply Blob_shape_def)
  show ?thesis using 1 2 by (simp add: Forward_gpu_eq_cpu)
qed

theorem C4_witness:
  "Blob_shape (snd (ex_reshaped PIXEL (ex_pixel_labels [2, 0])) 2) = (1, 3, 1, 2) \<and>
   Blob_shape (state_of (Forward_cpu float_add (fst (ex_reshaped PIXEL (ex_pixel_labels [2, 0]))) [0, 1] [2]
      (snd (ex_reshaped PIXEL (ex_pixel_labels [2, 0])))) 2) = (1, 3, 1, 2) \<and>
   Blob_shape (state_of (Forward_gpu float_add (fst (ex_reshaped PIXEL (ex_pixel_labels [2, 0]))) [0, 1] [2]
      (snd (ex_reshaped PIXEL (ex_pixel_labels [2, 0])))) 2) = (1, 3, 1, 2)"
  using C4_output_shape[where add = float_add, OF ex_reshape_pixel[of "[2, 0]"]]
  by (simp add: ex_store_def ex_activation_def Blob_shape_def)




text \<open>
  Claim C6. When the gradient of the activation is requested and that of the labels is not,
  Backward returns with the first count values of the activation blob's diff buffer equal
  to those of the output blob's diff buffer (which holds at least count values), the rest
  of that buffer, the blob's data and shape and every other blob unchanged; the device
  path gives the same state. When neither gradient is requested, Backward returns the
  store as it was, on both paths.
\<close>

theorem C6_backward_identity:
  assumes "Blob_count (s a) \<le> length (cpu_diff (s t))"
  shows "(\<exists>s'. Backward_cpu L [t] [True, False] [a, l] s = Inr s' \<and>
            take (Blob_count (s a)) (cpu_diff (s' a)) = take (Blob_count (s a)) (cpu_diff (s t)) \<and>
            drop (Blob_count (s a)) (cpu_diff (s' a)) = drop (Blob_count (s a)) (cpu_diff (s a)) \<and>
            cpu_data (s' a) = cpu_data (s a) \<and> Blob_shape (s' a) = Blob_shape (s a) \<and>
            (\<forall>b. b \<noteq> a \<longrightarrow> s' b = s b) \<and>
            Backward_gpu L [t] [True, False] [a, l] s = Inr s') \<and>
         Backward_cpu L [t] [False, False] [a, l] s = Inr s \<and>
         Backward_gpu L [t] [False, False] [a, l] s = Inr s"
  using assms
  by (simp add: Backward_cpu_def Backward_gpu_def mutable_cpu_diff_def mutable_gpu_diff_def
      gpu_diff_def caffe_copy_def Blob_shape_def)

theorem C6_witness:
  "\<exists>s'. Backward_cpu (ex_ready IMAGE) [2] [True, False] [0, 1]
           ((ex_store (ex_image_labels [2, 2, - 1]))(2 := ex_gradient)) = Inr s' \<and>
        take 6 (cpu_diff (s' 0)) = [1, 2, 3, 4, 5, 6]"
proof -
  let ?s = "(ex_store (ex_image_labels [2, 2, - 1]))(2 := ex_gradient)"
  have cnt: "Blob_count (?s 0) = 6"
    by (simp add: ex_store_def ex_activation_def Blob_count_def)
  have d: "cpu_diff (?s 2) = [1, 2, 3, 4, 5, 6]"
    by (simp add: ex_gradient_def)
  have "Blob_count (?s 0) \<le> length (cpu_diff (?s 2))"
    unfolding cnt d by simp
  from C6_backward_identity[OF this, of "ex_ready IMAGE" 1]
  obtain s' where "Backward_cpu (ex_ready IMAGE) [2] [True, False] [0, 1] ?s = Inr s'"
    and "take (Blob_count (?s 0)) (cpu_diff (s' 0)) = take (Blob_count (?s 0)) (cpu_diff (?s 2))"
    by blast
  then have "Backward_cpu (ex_ready IMAGE) [2] [True, False] [0, 1] ?s = Inr s' \<and>
             take 6 (cpu_diff (s' 0)) = [1, 2, 3, 4, 5, 6]"
    unfolding cnt d by simp
  then show ?thesis by blast
qed

text \<open>
  Claim C7. When the gradient of the label input is requested, Backward aborts with the fatal
  "Cannot propagate down to label input" on both paths, whether or not the gradient of the
  activation is requested too, and the store it aborts in is the store it was given:
  no gradient has been written.
\<close>

theorem C7_label_gradient_fatal:
  "Backward_cpu L [t] [p0, True] [a, l] s =
     Inl (LOG_FATAL ''Cannot propagate down to label input'', s) \<and>
   Backward_gpu L [t] [p0, True] [a, l] s =
     Inl (LOG_FATAL ''Cannot propagate down to label input'', s)"
  by (simp add: Backward_cpu_def Backward_gpu_def)

text \<open>
  Claim C8. Reshape aborts exactly when the label blob's num differs from the activation's,
  or the label blob has no channel, or (image labels) the label blob's height or width is
  not 1, or (pixel labels) the label blob has not exactly one channel or its height or
  width differs from the activation's. Otherwise it returns with the output blob
  reshaped to the activation's shape.
\<close>

theorem C8_reshape_checks:
  "((\<exists>e st. Reshape L [a, l] [t] s = Inl (e, st)) \<longleftrightarrow>
      (num (s l) \<noteq> num (s a) \<or> channels (s l) < 1 \<or>
       (label_type (bias_channel_param L) = IMAGE \<and> (height (s l) \<noteq> 1 \<or> width (s l) \<noteq> 1)) \<or>
       (label_type (bias_channel_param L) = PIXEL \<and>
          (channels (s l) \<noteq> 1 \<or> height (s l) \<noteq> height (s a) \<or> width (s l) \<noteq> width (s a))))) \<and>
   ((\<exists>L' s'. Reshape L [a, l] [t] s = Inr (L', s') \<and>
        Blob_shape (s' t) = Blob_shape (s a)) \<or>
    (\<exists>e st. Reshape L [a, l] [t] s = Inl (e, st)))"
  by (cases "label_type (bias_channel_param L)")
     (auto simp: Reshape_def Let_def Blob_Reshape_def Blob_shape_def)

text \<open>
  A label blob of shape (1, 1, 1, 2) is rejected for image labels (its width is 2) and
  accepted for pixel labels, where the output blob gets the shape (1, 3, 1, 2).
\<close>

theorem C8_witness:
  "(\<exists>e st. Reshape (ex_ready IMAGE) [0, 1] [2] (ex_store (ex_pixel_labels [2, 0])) = Inl (e, st)) \<and>
   (\<exists>L' s'. Reshape (ex_ready PIXEL) [0, 1] [2] (ex_store (ex_pixel_labels [2, 0])) = Inr (L', s') \<and>
      Blob_shape (s' 2) = (1, 3, 1, 2))"
proof -
  let ?s = "ex_store (ex_pixel_labels [2, 0])"
  have "width (?s 1) \<noteq> 1" "label_type (bias_channel_param (ex_ready IMAGE)) = IMAGE"
    by (simp_all add: ex_defs LayerSetUp_def)
  with C8_reshape_checks[of "ex_ready IMAGE" 0 1 2 ?s]
  have 1: "\<exists>e st. Reshape (ex_ready IMAGE) [0, 1] [2] ?s = Inl (e, st)" by blast
  have "\<not> (num (?s 1) \<noteq> num (?s 0) \<or> channels (?s 1) < 1 \<or>
       (label_type (bias_channel_param (ex_ready PIXEL)) = IMAGE \<and>
          (height (?s 1) \<noteq> 1 \<or> width (?s 1) \<noteq> 1)) \<or>
       (label_type (bias_channel_param (ex_ready PIXEL)) = PIXEL \<and>
          (channels (?s 1) \<noteq> 1 \<or> height (?s 1) \<noteq> height (?s 0) \<or> width (?s 1) \<noteq> width (?s 0))))"
    by (simp add: ex_defs LayerSetUp_def)
  with C8_reshape_checks[of "ex_ready PIXEL" 0 1 2 ?s]
  have "\<exists>L' s'. Reshape (ex_ready PIXEL) [0, 1] [2] ?s = Inr (L', s') \<and>
          Blob_shape (s' 2) = Blob_shape (?s 0)" by blast
  then have 2: "\<exists>L' s'. Reshape (ex_ready PIXEL) [0, 1] [2] ?s = Inr (L', s') \<and>
          Blob_shape (s' 2) = (1, 3, 1, 2)"
    by (simp add: ex_store_def ex_activation_def Blob_shape_def)
  from 1 2 show ?thesis by blast
qed

text \<open>
  Claim C9. The device path of Forward ends in the same result as the host path, for every
  layer state, store and pair of blob vectors: for pixel labels it calls the host path, for
  image labels it runs the same copy and the same additions in the same order.
\<close>

theorem C9_gpu_equals_cpu:
  "Forward_gpu add L bottom top_v s = Forward_cpu add L bottom top_v s"
  by (rule Forward_gpu_eq_cpu)



end
